theory Spec2Isabelle
  imports Complex_Main "HOL-Library.Monad_Syntax"
begin

section \<open>JavaScript values and JSON frames\<close>

text \<open>
  Both processes exchange WebSocket text frames that hold JSON. A JavaScript number is a
  double: a finite value (a rational; \<open>-0\<close> is not told apart from \<open>0\<close>, as \<open>===\<close> does not),
  an infinity or NaN. An object is an association list, read with the first entry of a key.
\<close>

datatype jsnum = Num rat | PosInfinity | NegInfinity | NaN

datatype jsval =
    JUndefined
  | JNull
  | JBool bool
  | JNum jsnum
  | JStr string
  | JArr "jsval list"
  | JObj "(string \<times> jsval) list"

text \<open>A value a \<open>throw\<close> carries: an \<open>Error\<close> object with its message, or anything else.\<close>

datatype thrown = Error string | NonError jsval

text \<open>\<open>obj[key]\<close> on an object literal or a parsed object: \<open>undefined\<close> for a missing key.\<close>

definition field :: "(string \<times> jsval) list \<Rightarrow> string \<Rightarrow> jsval" where
  "field kvs k = (case map_of kvs k of None \<Rightarrow> JUndefined | Some v \<Rightarrow> v)"

text \<open>
  \<open>value.key\<close> on a value of type \<open>any\<close>: a TypeError on \<open>undefined\<close> and \<open>null\<close>,
  \<open>undefined\<close> on a primitive or an array (the keys read by the code are not inherited ones).
\<close>

fun member :: "jsval \<Rightarrow> string \<Rightarrow> thrown + jsval" where
  "member JUndefined k = Inl (Error (''Cannot read properties of undefined: '' @ k))"
| "member JNull k = Inl (Error (''Cannot read properties of null: '' @ k))"
| "member (JObj kvs) k = Inr (field kvs k)"
| "member v k = Inr JUndefined"

text \<open>
  \<open>JSON.stringify\<close> followed by \<open>JSON.parse\<close>, on the value: a property whose value is
  \<open>undefined\<close> is left out, an \<open>undefined\<close> array element and a number that is not finite
  become \<open>null\<close>. \<open>json_value\<close> is the value the text denotes; \<open>None\<close> when
  \<open>JSON.stringify\<close> returns \<open>undefined\<close>.
\<close>

fun json_value :: "jsval \<Rightarrow> jsval option"
  and json_elems :: "jsval list \<Rightarrow> jsval list"
  and json_props :: "(string \<times> jsval) list \<Rightarrow> (string \<times> jsval) list" where
  "json_value JUndefined = None"
| "json_value JNull = Some JNull"
| "json_value (JBool b) = Some (JBool b)"
| "json_value (JNum n) = Some (case n of Num q \<Rightarrow> JNum (Num q) | _ \<Rightarrow> JNull)"
| "json_value (JStr s) = Some (JStr s)"
| "json_value (JArr xs) = Some (JArr (json_elems xs))"
| "json_value (JObj kvs) = Some (JObj (json_props kvs))"
| "json_elems [] = []"
| "json_elems (x # xs) = (case json_value x of None \<Rightarrow> JNull | Some j \<Rightarrow> j) # json_elems xs"
| "json_props [] = []"
| "json_props ((k, v) # kvs) =
     (case json_value v of None \<Rightarrow> json_props kvs | Some j \<Rightarrow> (k, j) # json_props kvs)"

text \<open>
  A text frame on the wire: the JSON text of a value, or a text that is not JSON.
  \<open>JSON.parse\<close> throws a SyntaxError on the latter. Every call of \<open>JSON.stringify\<close> in the
  code is on an object literal, so its \<open>undefined\<close> result does not arise.
\<close>

datatype frame = NotJson string | JsonText jsval

definition JSON_stringify :: "jsval \<Rightarrow> frame" where
  "JSON_stringify v = (case json_value v of None \<Rightarrow> NotJson ''undefined'' | Some j \<Rightarrow> JsonText j)"

definition JSON_parse :: "frame \<Rightarrow> thrown + jsval" where
  "JSON_parse f = (case f of NotJson s \<Rightarrow> Inl (Error (''SyntaxError: '' @ s)) | JsonText v \<Rightarrow> Inr v)"

section \<open>The message schemas (protocol.ts)\<close>

text \<open>The types \<open>z.infer\<close> gives; an optional field is an \<open>option\<close>.\<close>

datatype request =
    ExecuteLldbCommandRequest string string "jsnum option"
  | GetStackTraceRequest jsnum string
  | GetVariablesRequest jsnum string

datatype sourceRef = SourceRef "string option" "string option"

datatype stackFrame = StackFrame jsnum string "sourceRef option" jsnum jsnum

datatype variable = Variable string string "string option" jsnum

datatype response =
    ExecuteLldbCommandResponse bool "string option" "string option" string
  | GetStackTraceResponse bool "stackFrame list option" "string option" string
  | GetVariablesResponse bool "variable list option" "string option" string

datatype event =
    DebuggerStopped string jsnum "string option" "bool option"
  | DebuggerContinued jsnum "bool option"

datatype message = Request request | Response response | Event event

text \<open>
  The zod (version 3) validators the schemas are built from, as \<open>safeParse\<close>: \<open>None\<close> is a
  failure. \<open>z.number()\<close> refuses NaN only; \<open>z.object\<close> strips the keys it does not know.
\<close>

definition z_string :: "jsval \<Rightarrow> string option" where
  "z_string v = (case v of JStr s \<Rightarrow> Some s | _ \<Rightarrow> None)"

definition z_number :: "jsval \<Rightarrow> jsnum option" where
  "z_number v = (case v of JNum n \<Rightarrow> (case n of NaN \<Rightarrow> None | _ \<Rightarrow> Some n) | _ \<Rightarrow> None)"

definition z_boolean :: "jsval \<Rightarrow> bool option" where
  "z_boolean v = (case v of JBool b \<Rightarrow> Some b | _ \<Rightarrow> None)"

definition z_literal :: "string \<Rightarrow> jsval \<Rightarrow> unit option" where
  "z_literal s v = (case v of JStr t \<Rightarrow> (if t = s then Some () else None) | _ \<Rightarrow> None)"

definition z_optional :: "(jsval \<Rightarrow> 'a option) \<Rightarrow> jsval \<Rightarrow> 'a option option" where
  "z_optional p v = (case v of JUndefined \<Rightarrow> Some None | _ \<Rightarrow> map_option Some (p v))"

fun z_all :: "(jsval \<Rightarrow> 'a option) \<Rightarrow> jsval list \<Rightarrow> 'a list option" where
  "z_all p [] = Some []"
| "z_all p (x # xs) =
     (case p x of None \<Rightarrow> None
      | Some a \<Rightarrow> (case z_all p xs of None \<Rightarrow> None | Some as \<Rightarrow> Some (a # as)))"

definition z_array :: "(jsval \<Rightarrow> 'a option) \<Rightarrow> jsval \<Rightarrow> 'a list option" where
  "z_array p v = (case v of JArr xs \<Rightarrow> z_all p xs | _ \<Rightarrow> None)"

fun z_union :: "(jsval \<Rightarrow> 'a option) list \<Rightarrow> jsval \<Rightarrow> 'a option" where
  "z_union [] v = None"
| "z_union (p # ps) v = (case p v of Some a \<Rightarrow> Some a | None \<Rightarrow> z_union ps v)"

definition executeLldbCommandRequestSchema :: "jsval \<Rightarrow> request option" where
  "executeLldbCommandRequestSchema v = (case v of
     JObj kvs \<Rightarrow> do {
       _ \<leftarrow> z_literal ''request'' (field kvs ''type'');
       _ \<leftarrow> z_literal ''executeLldbCommand'' (field kvs ''command'');
       lldb_command \<leftarrow> z_string (field kvs ''lldb_command'');
       rid \<leftarrow> z_string (field kvs ''id'');
       frameId \<leftarrow> z_optional z_number (field kvs ''frameId'');
       Some (ExecuteLldbCommandRequest lldb_command rid frameId) }
   | _ \<Rightarrow> None)"

definition getStackTraceRequestSchema :: "jsval \<Rightarrow> request option" where
  "getStackTraceRequestSchema v = (case v of
     JObj kvs \<Rightarrow> do {
       _ \<leftarrow> z_literal ''request'' (field kvs ''type'');
       _ \<leftarrow> z_literal ''getStackTrace'' (field kvs ''command'');
       threadId \<leftarrow> z_number (field kvs ''threadId'');
       rid \<leftarrow> z_string (field kvs ''id'');
       Some (GetStackTraceRequest threadId rid) }
   | _ \<Rightarrow> None)"

definition getVariablesRequestSchema :: "jsval \<Rightarrow> request option" where
  "getVariablesRequestSchema v = (case v of
     JObj kvs \<Rightarrow> do {
       _ \<leftarrow> z_literal ''request'' (field kvs ''type'');
       _ \<leftarrow> z_literal ''getVariables'' (field kvs ''command'');
       variablesReference \<leftarrow> z_number (field kvs ''variablesReference'');
       rid \<leftarrow> z_string (field kvs ''id'');
       Some (GetVariablesRequest variablesReference rid) }
   | _ \<Rightarrow> None)"

definition executeLldbCommandResponseSchema :: "jsval \<Rightarrow> response option" where
  "executeLldbCommandResponseSchema v = (case v of
     JObj kvs \<Rightarrow> do {
       _ \<leftarrow> z_literal ''response'' (field kvs ''type'');
       _ \<leftarrow> z_literal ''executeLldbCommand'' (field kvs ''command'');
       success \<leftarrow> z_boolean (field kvs ''success'');
       result \<leftarrow> z_optional z_string (field kvs ''result'');
       err \<leftarrow> z_optional z_string (field kvs ''error'');
       rid \<leftarrow> z_string (field kvs ''id'');
       Some (ExecuteLldbCommandResponse success result err rid) }
   | _ \<Rightarrow> None)"

definition sourceSchema :: "jsval \<Rightarrow> sourceRef option" where
  "sourceSchema v = (case v of
     JObj kvs \<Rightarrow> do {
       nm \<leftarrow> z_optional z_string (field kvs ''name'');
       path \<leftarrow> z_optional z_string (field kvs ''path'');
       Some (SourceRef nm path) }
   | _ \<Rightarrow> None)"

definition stackFrameSchema :: "jsval \<Rightarrow> stackFrame option" where
  "stackFrameSchema v = (case v of
     JObj kvs \<Rightarrow> do {
       fid \<leftarrow> z_number (field kvs ''id'');
       nm \<leftarrow> z_string (field kvs ''name'');
       src \<leftarrow> z_optional sourceSchema (field kvs ''source'');
       line \<leftarrow> z_number (field kvs ''line'');
       col \<leftarrow> z_number (field kvs ''column'');
       Some (StackFrame fid nm src line col) }
   | _ \<Rightarrow> None)"

definition getStackTraceResponseSchema :: "jsval \<Rightarrow> response option" where
  "getStackTraceResponseSchema v = (case v of
     JObj kvs \<Rightarrow> do {
       _ \<leftarrow> z_literal ''response'' (field kvs ''type'');
       _ \<leftarrow> z_literal ''getStackTrace'' (field kvs ''command'');
       success \<leftarrow> z_boolean (field kvs ''success'');
       stackFrames \<leftarrow> z_optional (z_array stackFrameSchema) (field kvs ''stackFrames'');
       err \<leftarrow> z_optional z_string (field kvs ''error'');
       rid \<leftarrow> z_string (field kvs ''id'');
       Some (GetStackTraceResponse success stackFrames err rid) }
   | _ \<Rightarrow> None)"

definition variableSchema :: "jsval \<Rightarrow> variable option" where
  "variableSchema v = (case v of
     JObj kvs \<Rightarrow> do {
       nm \<leftarrow> z_string (field kvs ''name'');
       val \<leftarrow> z_string (field kvs ''value'');
       ty \<leftarrow> z_optional z_string (field kvs ''type'');
       variablesReference \<leftarrow> z_number (field kvs ''variablesReference'');
       Some (Variable nm val ty variablesReference) }
   | _ \<Rightarrow> None)"

definition getVariablesResponseSchema :: "jsval \<Rightarrow> response option" where
  "getVariablesResponseSchema v = (case v of
     JObj kvs \<Rightarrow> do {
       _ \<leftarrow> z_literal ''response'' (field kvs ''type'');
       _ \<leftarrow> z_literal ''getVariables'' (field kvs ''command'');
       success \<leftarrow> z_boolean (field kvs ''success'');
       variables \<leftarrow> z_optional (z_array variableSchema) (field kvs ''variables'');
       err \<leftarrow> z_optional z_string (field kvs ''error'');
       rid \<leftarrow> z_string (field kvs ''id'');
       Some (GetVariablesResponse success variables err rid) }
   | _ \<Rightarrow> None)"

definition debuggerStoppedEventSchema :: "jsval \<Rightarrow> event option" where
  "debuggerStoppedEventSchema v = (case v of
     JObj kvs \<Rightarrow> do {
       _ \<leftarrow> z_literal ''event'' (field kvs ''type'');
       _ \<leftarrow> z_literal ''debuggerStopped'' (field kvs ''event'');
       reason \<leftarrow> z_string (field kvs ''reason'');
       threadId \<leftarrow> z_number (field kvs ''threadId'');
       description \<leftarrow> z_optional z_string (field kvs ''description'');
       allThreadsStopped \<leftarrow> z_optional z_boolean (field kvs ''allThreadsStopped'');
       Some (DebuggerStopped reason threadId description allThreadsStopped) }
   | _ \<Rightarrow> None)"

definition debuggerContinuedEventSchema :: "jsval \<Rightarrow> event option" where
  "debuggerContinuedEventSchema v = (case v of
     JObj kvs \<Rightarrow> do {
       _ \<leftarrow> z_literal ''event'' (field kvs ''type'');
       _ \<leftarrow> z_literal ''debuggerContinued'' (field kvs ''event'');
       threadId \<leftarrow> z_number (field kvs ''threadId'');
       allThreadsContinued \<leftarrow> z_optional z_boolean (field kvs ''allThreadsContinued'');
       Some (DebuggerContinued threadId allThreadsContinued) }
   | _ \<Rightarrow> None)"

definition requestSchema :: "jsval \<Rightarrow> request option" where
  "requestSchema = z_union
     [executeLldbCommandRequestSchema, getStackTraceRequestSchema, getVariablesRequestSchema]"

definition responseSchema :: "jsval \<Rightarrow> response option" where
  "responseSchema = z_union
     [executeLldbCommandResponseSchema, getStackTraceResponseSchema, getVariablesResponseSchema]"

definition eventSchema :: "jsval \<Rightarrow> event option" where
  "eventSchema = z_union [debuggerStoppedEventSchema, debuggerContinuedEventSchema]"

definition messageSchema :: "jsval \<Rightarrow> message option" where
  "messageSchema = z_union
     [\<lambda>v. map_option Request (requestSchema v),
      \<lambda>v. map_option Response (responseSchema v),
      \<lambda>v. map_option Event (eventSchema v)]"

section \<open>The Session State Cache (index.ts)\<close>

datatype connectionStatus = disconnected | connecting | connected

record debuggerState =
  isStopped :: bool
  currentThreadId :: jsnum
  stopReason :: string
  connectionStatus :: connectionStatus
  connectionPort :: "jsnum option"

definition initialDebuggerState :: debuggerState where
  "initialDebuggerState =
     \<lparr> isStopped = False, currentThreadId = Num 1, stopReason = [],
       connectionStatus = disconnected, connectionPort = None \<rparr>"

fun handleEvent :: "event \<Rightarrow> debuggerState \<Rightarrow> debuggerState" where
  "handleEvent (DebuggerStopped reason threadId description allThreadsStopped) d =
     d\<lparr> isStopped := True, currentThreadId := threadId, stopReason := reason \<rparr>"
| "handleEvent (DebuggerContinued threadId allThreadsContinued) d =
     d\<lparr> isStopped := False \<rparr>"

section \<open>The Command Dispatcher (extension.ts)\<close>

text \<open>
  The active debug session is VS Code's: its \<open>type\<close> and what \<open>customRequest\<close> answers, a
  value or a rejection. What a handler does is the list of its calls of the session and of
  its \<open>ws.send\<close>, in order, with the exception that leaves it, if any. \<open>ws.send\<close> on a
  server-side socket queues the frame and does not throw; the output channel is left out.
\<close>

record debugSession =
  sessionType :: string
  customRequest :: "string \<Rightarrow> jsval \<Rightarrow> thrown + jsval"

datatype action = CustomRequest string jsval | WsSend frame

type_synonym 'a io = "(thrown + 'a) \<times> action list"

definition ret :: "'a \<Rightarrow> 'a io" where
  "ret a = (Inr a, [])"

definition lift :: "thrown + 'a \<Rightarrow> 'a io" where
  "lift r = (r, [])"

definition bind_io :: "'a io \<Rightarrow> ('a \<Rightarrow> 'b io) \<Rightarrow> 'b io" where
  "bind_io m f = (case m of
     (Inl e, as) \<Rightarrow> (Inl e, as)
   | (Inr a, as) \<Rightarrow> (case f a of (r, bs) \<Rightarrow> (r, as @ bs)))"

definition try_catch :: "'a io \<Rightarrow> (thrown \<Rightarrow> 'a io) \<Rightarrow> 'a io" where
  "try_catch m h = (case m of
     (Inl e, as) \<Rightarrow> (case h e of (r, bs) \<Rightarrow> (r, as @ bs))
   | (Inr a, as) \<Rightarrow> (Inr a, as))"

definition ws_send :: "frame \<Rightarrow> unit io" where
  "ws_send f = (Inr (), [WsSend f])"

definition await_customRequest :: "debugSession \<Rightarrow> string \<Rightarrow> jsval \<Rightarrow> jsval io" where
  "await_customRequest session command args =
     (customRequest session command args, [CustomRequest command args])"

text \<open>\<open>error instanceof Error ? error.message : dflt\<close>\<close>

fun error_message :: "thrown \<Rightarrow> string \<Rightarrow> string" where
  "error_message (Error m) dflt = m"
| "error_message (NonError v) dflt = dflt"

text \<open>\<open>!session || session.type !== "lldb"\<close>\<close>

definition no_lldb_session :: "debugSession option \<Rightarrow> bool" where
  "no_lldb_session session =
     (case session of None \<Rightarrow> True | Some s \<Rightarrow> sessionType s \<noteq> ''lldb'')"

definition handleExecuteLldbCommand ::
  "debugSession option \<Rightarrow> string \<Rightarrow> string \<Rightarrow> unit io" where
  "handleExecuteLldbCommand session lldb_command rid =
     (if no_lldb_session session then
        ws_send (JSON_stringify (JObj
          [(''type'', JStr ''response''), (''command'', JStr ''executeLldbCommand''),
           (''success'', JBool False), (''error'', JStr ''No active LLDB debug session''),
           (''id'', JStr rid)]))
      else
        try_catch
          (bind_io (await_customRequest (the session) ''evaluate''
               (JObj [(''expression'', JStr lldb_command), (''context'', JStr ''_command'')]))
             (\<lambda>result. bind_io (lift (member result ''result''))
               (\<lambda>r. ws_send (JSON_stringify (JObj
                  [(''type'', JStr ''response''), (''command'', JStr ''executeLldbCommand''),
                   (''success'', JBool True), (''result'', r), (''id'', JStr rid)])))))
          (\<lambda>error. ws_send (JSON_stringify (JObj
             [(''type'', JStr ''response''), (''command'', JStr ''executeLldbCommand''),
              (''success'', JBool False),
              (''error'', JStr (error_message error ''Command execution failed'')),
              (''id'', JStr rid)]))))"

definition handleGetStackTrace ::
  "debugSession option \<Rightarrow> jsnum \<Rightarrow> string \<Rightarrow> unit io" where
  "handleGetStackTrace session threadId rid =
     (if no_lldb_session session then
        ws_send (JSON_stringify (JObj
          [(''type'', JStr ''response''), (''command'', JStr ''getStackTrace''),
           (''success'', JBool False), (''error'', JStr ''No active LLDB debug session''),
           (''id'', JStr rid)]))
      else
        try_catch
          (bind_io (await_customRequest (the session) ''stackTrace''
               (JObj [(''threadId'', JNum threadId), (''startFrame'', JNum (Num 0)),
                      (''levels'', JNum (Num 100))]))
             (\<lambda>result. bind_io (lift (member result ''body''))
               (\<lambda>body. bind_io (lift (member body ''stackFrames''))
                 (\<lambda>stackFrames. ws_send (JSON_stringify (JObj
                    [(''type'', JStr ''response''), (''command'', JStr ''getStackTrace''),
                     (''success'', JBool True), (''stackFrames'', stackFrames),
                     (''id'', JStr rid)]))))))
          (\<lambda>error. ws_send (JSON_stringify (JObj
             [(''type'', JStr ''response''), (''command'', JStr ''getStackTrace''),
              (''success'', JBool False),
              (''error'', JStr (error_message error ''Failed to get stack trace'')),
              (''id'', JStr rid)]))))"

definition handleGetVariables ::
  "debugSession option \<Rightarrow> jsnum \<Rightarrow> string \<Rightarrow> unit io" where
  "handleGetVariables session variablesReference rid =
     (if no_lldb_session session then
        ws_send (JSON_stringify (JObj
          [(''type'', JStr ''response''), (''command'', JStr ''getVariables''),
           (''success'', JBool False), (''error'', JStr ''No active LLDB debug session''),
           (''id'', JStr rid)]))
      else
        try_catch
          (if variablesReference = Num 0 then
             ws_send (JSON_stringify (JObj
               [(''type'', JStr ''response''), (''command'', JStr ''getVariables''),
                (''success'', JBool False),
                (''error'', JStr ''Please provide a valid variablesReference from a stack frame''),
                (''id'', JStr rid)]))
           else
             bind_io (await_customRequest (the session) ''variables''
                 (JObj [(''variablesReference'', JNum variablesReference)]))
               (\<lambda>result. bind_io (lift (member result ''body''))
                 (\<lambda>body. bind_io (lift (member body ''variables''))
                   (\<lambda>variables. ws_send (JSON_stringify (JObj
                      [(''type'', JStr ''response''), (''command'', JStr ''getVariables''),
                       (''success'', JBool True), (''variables'', variables),
                       (''id'', JStr rid)]))))))
          (\<lambda>error. ws_send (JSON_stringify (JObj
             [(''type'', JStr ''response''), (''command'', JStr ''getVariables''),
              (''success'', JBool False),
              (''error'', JStr (error_message error ''Failed to get variables'')),
              (''id'', JStr rid)]))))"

fun handleRequest :: "debugSession option \<Rightarrow> request \<Rightarrow> unit io" where
  "handleRequest session (ExecuteLldbCommandRequest lldb_command rid frameId) =
     handleExecuteLldbCommand session lldb_command rid"
| "handleRequest session (GetStackTraceRequest threadId rid) =
     handleGetStackTrace session threadId rid"
| "handleRequest session (GetVariablesRequest variablesReference rid) =
     handleGetVariables session variablesReference rid"

text \<open>
  The handler of \<open>ws.on("message")\<close>. \<open>format\<close> is zod's \<open>parsed.error.format()\<close> for the
  value the schema refused.
\<close>

definition ws_on_message ::
  "(jsval \<Rightarrow> jsval) \<Rightarrow> debugSession option \<Rightarrow> frame \<Rightarrow> unit io" where
  "ws_on_message format session data =
     try_catch
       (bind_io (lift (JSON_parse data))
          (\<lambda>message. case messageSchema message of
               None \<Rightarrow> ws_send (JSON_stringify (JObj
                 [(''type'', JStr ''error''), (''error'', JStr ''Invalid message format''),
                  (''details'', format message)]))
             | Some (Request request) \<Rightarrow> handleRequest session request
             | Some (Response r) \<Rightarrow> ret ()
             | Some (Event e) \<Rightarrow> ret ()))
       (\<lambda>error. ws_send (JSON_stringify (JObj
          [(''type'', JStr ''error''), (''error'', JStr ''Failed to process message''),
           (''details'', JStr (error_message error ''Unknown error''))])))"

text \<open>
  The listening role: the set \<open>clients\<close> of live sockets, and what each socket event does
  to it. A frame is answered on the socket it came from.
\<close>

datatype server_event =
    Connection nat
  | WsMessage nat frame
  | WsClose nat
  | WsError nat

fun server_step ::
  "(jsval \<Rightarrow> jsval) \<Rightarrow> debugSession option \<Rightarrow> server_event \<Rightarrow> nat set
     \<Rightarrow> nat set \<times> (nat \<times> unit io) list" where
  "server_step format session (Connection ws) clients = (insert ws clients, [])"
| "server_step format session (WsMessage ws data) clients =
     (clients, [(ws, ws_on_message format session data)])"
| "server_step format session (WsClose ws) clients = (clients - {ws}, [])"
| "server_step format session (WsError ws) clients = (clients - {ws}, [])"

section \<open>The connecting role and the Request Correlator (index.ts)\<close>

text \<open>
  The state of \<open>MCPDebuggerServer\<close>. A call of \<open>sendRequest\<close> is named by a token, the
  number of the call: it names the promise the call returns, the handler it stores and its
  30 second timer. \<open>timers\<close> are the pending timers of \<open>sendRequest\<close> (token, deadline,
  request id), \<open>settled\<close> the calls of \<open>resolve\<close> and \<open>reject\<close> so far (token, time,
  outcome), \<open>sent\<close> the frames given to \<open>ws.send\<close>, \<open>connLog\<close> what \<open>connectToExtension\<close>
  did. The clock counts milliseconds.
\<close>

datatype readyState = CONNECTING | OPEN | CLOSING | CLOSED

datatype settlement = Resolved response | Rejected string

datatype conn_action = NewWebSocket jsnum | ConnectionTimeout nat | RetryDelay nat

record client =
  port :: jsnum
  ws :: "readyState option"
  debuggerState :: debuggerState
  responseHandlers :: "string \<rightharpoonup> nat"
  timers :: "(nat \<times> nat \<times> string) list"
  settled :: "(nat \<times> nat \<times> settlement) list"
  sent :: "frame list"
  connLog :: "conn_action list"
  clock :: nat
  nextToken :: nat

definition initialClient :: "jsnum \<Rightarrow> client" where
  "initialClient p =
     \<lparr> port = p, ws = None, debuggerState = initialDebuggerState,
       responseHandlers = Map.empty, timers = [], settled = [], sent = [], connLog = [],
       clock = 0, nextToken = 0 \<rparr>"

text \<open>
  What the environment does to one connection attempt: the constructor \<open>new WebSocket\<close>
  throws (an Error with a message), the socket opens, an error event arrives (the event
  object), or neither happens within 5000 ms.
\<close>

datatype attempt = ConstructorThrows string | Opens | ErrorEvent jsval | TimesOut

definition maxRetries :: nat where
  "maxRetries = 5"

definition set_connection :: "connectionStatus \<Rightarrow> jsnum option \<Rightarrow> client \<Rightarrow> client" where
  "set_connection st p c =
     c\<lparr> debuggerState := (debuggerState c)\<lparr> connectionStatus := st, connectionPort := p \<rparr> \<rparr>"

text \<open>
  The inner \<open>connect\<close> of \<open>connectToExtension\<close>, with \<open>retryCount\<close> as an argument; \<open>env n\<close>
  is the fate of the attempt made with \<open>retryCount = n\<close>. The \<open>try\<close> block returns the
  promise without awaiting it, so its \<open>catch\<close> sees only what the constructor throws: a
  rejection of the promise (error event, timeout) is the result of \<open>connect\<close> as it is.
  The result carries the final \<open>retryCount\<close>.
\<close>

function connect ::
  "(nat \<Rightarrow> attempt) \<Rightarrow> jsnum \<Rightarrow> nat \<Rightarrow> client \<Rightarrow> (thrown + unit) \<times> nat \<times> client" where
  "connect env p retryCount c =
     (if retryCount \<ge> maxRetries then
        (Inl (Error ''Failed to connect after 5 attempts''), retryCount,
         set_connection disconnected None c)
      else
        (case env retryCount of
           ConstructorThrows m \<Rightarrow>
             (let c1 = c\<lparr> connLog := connLog c @ [NewWebSocket p] \<rparr> in
              if retryCount + 1 < maxRetries then
                connect env p (retryCount + 1) (c1\<lparr> connLog := connLog c1 @ [RetryDelay 2000] \<rparr>)
              else (Inl (Error m), retryCount + 1, c1))
         | Opens \<Rightarrow>
             (Inr (), 0,
              (c\<lparr> connLog := connLog c @ [NewWebSocket p], ws := Some OPEN,
                  debuggerState := (debuggerState c)\<lparr> connectionStatus := connected \<rparr> \<rparr>))
         | ErrorEvent ev \<Rightarrow>
             (Inl (NonError ev), retryCount,
              set_connection disconnected None
                (c\<lparr> connLog := connLog c @ [NewWebSocket p], ws := None \<rparr>))
         | TimesOut \<Rightarrow>
             (Inl (Error ''Connection timeout''), retryCount,
              set_connection disconnected None
                (c\<lparr> connLog := connLog c @ [NewWebSocket p, ConnectionTimeout 5000],
                    ws := Some CLOSING \<rparr>))))"
  by pat_completeness auto
termination
  by (relation "measure (\<lambda>(env, p, retryCount, c). maxRetries - retryCount)") auto

declare connect.simps [simp del]

definition connectToExtension ::
  "(nat \<Rightarrow> attempt) \<Rightarrow> jsnum \<Rightarrow> client \<Rightarrow> (thrown + unit) \<times> nat \<times> client" where
  "connectToExtension env p c = connect env p 0 (set_connection connecting (Some p) c)"

text \<open>\<open>error.message\<close> inside a template string.\<close>

definition message_text :: "thrown \<Rightarrow> string" where
  "message_text e = (case e of
     Error m \<Rightarrow> m
   | NonError v \<Rightarrow> (case member v ''message'' of Inr (JStr m) \<Rightarrow> m | _ \<Rightarrow> ''undefined''))"

text \<open>\<open>{ ...request, id }\<close>\<close>

definition with_id :: "(string \<times> jsval) list \<Rightarrow> string \<Rightarrow> (string \<times> jsval) list" where
  "with_id request rid =
     (if ''id'' \<in> fst ` set request
      then map (\<lambda>(k, v). if k = ''id'' then (k, JStr rid) else (k, v)) request
      else request @ [(''id'', JStr rid)])"

definition settle :: "nat \<Rightarrow> settlement \<Rightarrow> client \<Rightarrow> client" where
  "settle tok outcome c = c\<lparr> settled := settled c @ [(tok, clock c, outcome)] \<rparr>"

text \<open>
  The head of \<open>sendRequest\<close>: when the socket is not open, reconnect (unless a connection
  is being made) or fail. \<open>env\<close> is the fate of the connection attempts it may make; a
  reconnection is taken as one step, in no time.
\<close>

definition ensureConnected :: "(nat \<Rightarrow> attempt) \<Rightarrow> client \<Rightarrow> (string + unit) \<times> client" where
  "ensureConnected env c =
     (if ws c \<noteq> Some OPEN then
        (if connectionStatus (debuggerState c) \<noteq> connecting then
           (case connectToExtension env (port c) c of
              (Inl e, rc, c1) \<Rightarrow>
                (Inl (''Not connected to VS Code extension and reconnection failed: ''
                       @ message_text e), c1)
            | (Inr u, rc, c1) \<Rightarrow> (Inr (), c1))
         else (Inl ''Connection to VS Code extension is still being established'', c))
      else (Inr (), c))"

text \<open>
  \<open>sendRequest\<close>, with the id \<open>Math.random\<close> gives: the promise is rejected at once when
  the head fails; otherwise the timer is set, the handler stored and the request sent.
\<close>

definition sendRequest ::
  "(nat \<Rightarrow> attempt) \<Rightarrow> (string \<times> jsval) list \<Rightarrow> string \<Rightarrow> client \<Rightarrow> client" where
  "sendRequest env request rid c =
     (let tok = nextToken c in
      case ensureConnected env c of
        (Inl m, c1) \<Rightarrow> settle tok (Rejected m) (c1\<lparr> nextToken := tok + 1 \<rparr>)
      | (Inr u, c1) \<Rightarrow>
          c1\<lparr> nextToken := tok + 1,
              timers := timers c1 @ [(tok, clock c1 + 30000, rid)],
              responseHandlers := (responseHandlers c1)(rid \<mapsto> tok),
              sent := sent c1 @ [JSON_stringify (JObj (with_id request rid))] \<rparr>)"

fun response_id :: "response \<Rightarrow> string" where
  "response_id (ExecuteLldbCommandResponse success result err rid) = rid"
| "response_id (GetStackTraceResponse success stackFrames err rid) = rid"
| "response_id (GetVariablesResponse success variables err rid) = rid"

fun response_success :: "response \<Rightarrow> bool" where
  "response_success (ExecuteLldbCommandResponse success result err rid) = success"
| "response_success (GetStackTraceResponse success stackFrames err rid) = success"
| "response_success (GetVariablesResponse success variables err rid) = success"

fun response_error :: "response \<Rightarrow> string option" where
  "response_error (ExecuteLldbCommandResponse success result err rid) = err"
| "response_error (GetStackTraceResponse success stackFrames err rid) = err"
| "response_error (GetVariablesResponse success variables err rid) = err"

text \<open>
  The handler \<open>sendRequest\<close> stores, for the call \<open>tok\<close>: \<open>clearTimeout\<close>, then \<open>resolve\<close> or
  \<open>reject\<close> (\<open>response.error || "Request failed"\<close>).
\<close>

definition response_outcome :: "response \<Rightarrow> settlement" where
  "response_outcome r =
     (if response_success r then Resolved r
      else Rejected (case response_error r of
                       None \<Rightarrow> ''Request failed''
                     | Some m \<Rightarrow> if m = [] then ''Request failed'' else m))"

definition run_handler :: "nat \<Rightarrow> response \<Rightarrow> client \<Rightarrow> client" where
  "run_handler tok r c =
     settle tok (response_outcome r)
       (c\<lparr> timers := filter (\<lambda>(t, deadline, rid). t \<noteq> tok) (timers c) \<rparr>)"

definition onmessage :: "frame \<Rightarrow> client \<Rightarrow> client" where
  "onmessage data c = (case JSON_parse data of
     Inl error \<Rightarrow> c
   | Inr message \<Rightarrow> (case messageSchema message of
        Some (Response r) \<Rightarrow> (case responseHandlers c (response_id r) of
            Some tok \<Rightarrow>
              (let c1 = run_handler tok r c
               in c1\<lparr> responseHandlers := (responseHandlers c1)(response_id r := None) \<rparr>)
          | None \<Rightarrow> c)
      | Some (Event e) \<Rightarrow> c\<lparr> debuggerState := handleEvent e (debuggerState c) \<rparr>
      | Some (Request q) \<Rightarrow> c
      | None \<Rightarrow> c))"

definition onclose :: "client \<Rightarrow> client" where
  "onclose c = set_connection disconnected None (c\<lparr> ws := None \<rparr>)"

text \<open>
  The callback of the 30 second timer of \<open>sendRequest\<close>, run at its deadline, and the
  passing of \<open>d\<close> milliseconds: every timer due by then runs, in the order they were set.
\<close>

definition fire :: "nat \<times> nat \<times> string \<Rightarrow> client \<Rightarrow> client" where
  "fire t c = (case t of (tok, deadline, rid) \<Rightarrow>
     c\<lparr> responseHandlers := (responseHandlers c)(rid := None),
        settled := settled c @ [(tok, deadline, Rejected ''Request timeout'')] \<rparr>)"

definition advance :: "nat \<Rightarrow> client \<Rightarrow> client" where
  "advance d c =
     (let now = clock c + d;
          due = filter (\<lambda>(tok, deadline, rid). deadline \<le> now) (timers c);
          c1 = foldl (\<lambda>c t. fire t c) c due
      in c1\<lparr> timers := filter (\<lambda>(tok, deadline, rid). \<not> deadline \<le> now) (timers c),
             clock := now \<rparr>)"

datatype client_event =
    SendRequest "nat \<Rightarrow> attempt" "(string \<times> jsval) list" string
  | Message frame
  | Close
  | Advance nat

fun client_step :: "client \<Rightarrow> client_event \<Rightarrow> client" where
  "client_step c (SendRequest env request rid) = sendRequest env request rid c"
| "client_step c (Message data) = onmessage data c"
| "client_step c Close = onclose c"
| "client_step c (Advance d) = advance d c"

definition run :: "client_event list \<Rightarrow> client \<Rightarrow> client" where
  "run evs c = foldl client_step c evs"

text \<open>
  The calls of \<open>resolve\<close> and \<open>reject\<close> on the promise of the call \<open>tok\<close>: time and
  outcome, in order.
\<close>

definition settlements :: "nat \<Rightarrow> client \<Rightarrow> (nat \<times> settlement) list" where
  "settlements tok c = map snd (filter (\<lambda>(t, time, outcome). t = tok) (settled c))"

section \<open>Notions the properties are stated with\<close>

fun request_id :: "request \<Rightarrow> string" where
  "request_id (ExecuteLldbCommandRequest lldb_command rid frameId) = rid"
| "request_id (GetStackTraceRequest threadId rid) = rid"
| "request_id (GetVariablesRequest variablesReference rid) = rid"

fun request_command :: "request \<Rightarrow> string" where
  "request_command (ExecuteLldbCommandRequest lldb_command rid frameId) = ''executeLldbCommand''"
| "request_command (GetStackTraceRequest threadId rid) = ''getStackTrace''"
| "request_command (GetVariablesRequest variablesReference rid) = ''getVariables''"

text \<open>The calls of the debug session and the frames sent, among the actions of a handler.\<close>

fun session_calls :: "action list \<Rightarrow> (string \<times> jsval) list" where
  "session_calls [] = []"
| "session_calls (CustomRequest command args # as) = (command, args) # session_calls as"
| "session_calls (WsSend f # as) = session_calls as"

fun sends :: "action list \<Rightarrow> frame list" where
  "sends [] = []"
| "sends (CustomRequest command args # as) = sends as"
| "sends (WsSend f # as) = f # sends as"

text \<open>The failed response every handler builds: \<open>success: false\<close> with an error text.\<close>

definition failure_response :: "string \<Rightarrow> string \<Rightarrow> string \<Rightarrow> jsval" where
  "failure_response command err rid = JObj
     [(''type'', JStr ''response''), (''command'', JStr command), (''success'', JBool False),
      (''error'', JStr err), (''id'', JStr rid)]"

text \<open>A frame that is not JSON, or whose value no message schema accepts.\<close>

definition malformed :: "frame \<Rightarrow> bool" where
  "malformed data = (case JSON_parse data of
     Inl e \<Rightarrow> True
   | Inr message \<Rightarrow> messageSchema message = None)"

text \<open>The traffic of the listening role, event after event.\<close>

fun server_run ::
  "(jsval \<Rightarrow> jsval) \<Rightarrow> debugSession option \<Rightarrow> server_event list \<Rightarrow> nat set
     \<Rightarrow> nat set \<times> (nat \<times> unit io) list" where
  "server_run format session [] clients = (clients, [])"
| "server_run format session (ev # evs) clients =
     (case server_step format session ev clients of
        (clients1, out1) \<Rightarrow>
          (case server_run format session evs clients1 of
             (clients2, out2) \<Rightarrow> (clients2, out1 @ out2)))"

text \<open>An event of the connecting role that delivers a response with the id \<open>rid\<close>.\<close>

fun answers :: "string \<Rightarrow> client_event \<Rightarrow> bool" where
  "answers rid (Message data) = (case JSON_parse data of
     Inl e \<Rightarrow> False
   | Inr message \<Rightarrow> (case messageSchema message of
        Some (Response r) \<Rightarrow> response_id r = rid
      | _ \<Rightarrow> False))"
| "answers rid ev = False"

text \<open>
  The calls of \<open>sendRequest\<close> whose timer is pending, and the state the correlator keeps
  between events: no call has two timers; a pending timer belongs to a call made, and its
  deadline lies ahead; a stored handler belongs to a call whose timer is pending, set for
  the same id; a call with a pending timer is unsettled, every other call made is settled
  once, and nothing is settled for a call not made yet.
\<close>

definition pending :: "client \<Rightarrow> nat set" where
  "pending c = fst ` set (timers c)"

definition correlator_inv :: "client \<Rightarrow> bool" where
  "correlator_inv c \<longleftrightarrow>
     distinct (map fst (timers c))
   \<and> (\<forall>(tok, deadline, rid) \<in> set (timers c). tok < nextToken c \<and> clock c < deadline)
   \<and> (\<forall>rid tok. responseHandlers c rid = Some tok \<longrightarrow>
         (\<exists>deadline. (tok, deadline, rid) \<in> set (timers c)))
   \<and> (\<forall>tok. (tok \<in> pending c \<or> nextToken c \<le> tok \<longrightarrow> settlements tok c = [])
         \<and> (tok \<notin> pending c \<and> tok < nextToken c \<longrightarrow> length (settlements tok c) = 1))"

text \<open>
  A value as a JavaScript object can be: no key twice in an object, at any depth.
\<close>

fun wf_jsval :: "jsval \<Rightarrow> bool"
  and wf_elems :: "jsval list \<Rightarrow> bool"
  and wf_props :: "(string \<times> jsval) list \<Rightarrow> bool" where
  "wf_jsval (JArr xs) = wf_elems xs"
| "wf_jsval (JObj kvs) = (distinct (map fst kvs) \<and> wf_props kvs)"
| "wf_jsval v = True"
| "wf_elems [] = True"
| "wf_elems (x # xs) = (wf_jsval x \<and> wf_elems xs)"
| "wf_props [] = True"
| "wf_props ((k, v) # kvs) = (wf_jsval v \<and> wf_props kvs)"

text \<open>A message whose numbers are all finite.\<close>

fun finite_num :: "jsnum \<Rightarrow> bool" where
  "finite_num (Num q) = True"
| "finite_num n = False"

fun finite_request :: "request \<Rightarrow> bool" where
  "finite_request (ExecuteLldbCommandRequest lldb_command rid frameId) =
     (case frameId of None \<Rightarrow> True | Some n \<Rightarrow> finite_num n)"
| "finite_request (GetStackTraceRequest threadId rid) = finite_num threadId"
| "finite_request (GetVariablesRequest variablesReference rid) = finite_num variablesReference"

fun finite_stackFrame :: "stackFrame \<Rightarrow> bool" where
  "finite_stackFrame (StackFrame fid nm src line col) =
     (finite_num fid \<and> finite_num line \<and> finite_num col)"

fun finite_variable :: "variable \<Rightarrow> bool" where
  "finite_variable (Variable nm val ty variablesReference) = finite_num variablesReference"

fun finite_response :: "response \<Rightarrow> bool" where
  "finite_response (ExecuteLldbCommandResponse success result err rid) = True"
| "finite_response (GetStackTraceResponse success stackFrames err rid) =
     (case stackFrames of None \<Rightarrow> True | Some fs \<Rightarrow> list_all finite_stackFrame fs)"
| "finite_response (GetVariablesResponse success variables err rid) =
     (case variables of None \<Rightarrow> True | Some vs \<Rightarrow> list_all finite_variable vs)"

fun finite_event :: "event \<Rightarrow> bool" where
  "finite_event (DebuggerStopped reason threadId description allThreadsStopped) = finite_num threadId"
| "finite_event (DebuggerContinued threadId allThreadsContinued) = finite_num threadId"

fun finite_message :: "message \<Rightarrow> bool" where
  "finite_message (Request q) = finite_request q"
| "finite_message (Response r) = finite_response r"
| "finite_message (Event e) = finite_event e"

text \<open>
  The value read back from the JSON text of a value, and what a schema gives on it in
  terms of what it gives on the value itself.
\<close>

definition js_norm :: "jsval \<Rightarrow> jsval" where
  "js_norm v = (case json_value v of None \<Rightarrow> JUndefined | Some j \<Rightarrow> j)"

definition keep :: "('a \<Rightarrow> bool) \<Rightarrow> 'a option \<Rightarrow> 'a option" where
  "keep P x = (case x of None \<Rightarrow> None | Some a \<Rightarrow> if P a then Some a else None)"

definition stable :: "('a \<Rightarrow> bool) \<Rightarrow> (jsval \<Rightarrow> 'a option) \<Rightarrow> bool" where
  "stable P p = (\<forall>v. wf_jsval v \<longrightarrow>
     (\<forall>m. p v = Some m \<longrightarrow> P m \<longrightarrow> p (js_norm v) = Some m)
     \<and> (p v = None \<longrightarrow> p (js_norm v) = None))"

text \<open>The response a frame delivers to the connecting role, if it is one.\<close>

definition incoming_response :: "frame \<Rightarrow> response option" where
  "incoming_response data = (case JSON_parse data of
     Inl e \<Rightarrow> None
   | Inr message \<Rightarrow> (case messageSchema message of Some (Response r) \<Rightarrow> Some r | _ \<Rightarrow> None))"

text \<open>
  The call \<open>tok\<close> of \<open>sendRequest\<close>, sent with the id \<open>rid\<close> and due at \<open>deadline\<close>, as
  long as no response with that id arrives: its timer is pending until the deadline, and
  from then on it is settled by the timeout, once.
\<close>

definition tracked :: "nat \<Rightarrow> nat \<Rightarrow> string \<Rightarrow> client \<Rightarrow> bool" where
  "tracked tok deadline rid c \<longleftrightarrow>
     correlator_inv c \<and> tok < nextToken c
     \<and> (if clock c < deadline then (tok, deadline, rid) \<in> set (timers c)
        else tok \<notin> pending c \<and> settlements tok c = [(deadline, Rejected ''Request timeout'')])"

text \<open>
  A run of the connecting role: a request answered in time, the same response once more,
  a request never answered, and its response after the timeout.
\<close>

definition example_run :: "client_event list" where
  "example_run =
     [SendRequest (\<lambda>n. Opens)
        [(''type'', JStr ''request''), (''command'', JStr ''executeLldbCommand''),
         (''lldb_command'', JStr ''bt'')] ''a'',
      Advance 10,
      Message (JsonText (JObj [(''type'', JStr ''response''),
         (''command'', JStr ''executeLldbCommand''), (''success'', JBool True),
         (''result'', JStr ''frame #0''), (''id'', JStr ''a'')])),
      Message (JsonText (JObj [(''type'', JStr ''response''),
         (''command'', JStr ''executeLldbCommand''), (''success'', JBool True),
         (''result'', JStr ''frame #0''), (''id'', JStr ''a'')])),
      SendRequest (\<lambda>n. Opens)
        [(''type'', JStr ''request''), (''command'', JStr ''executeLldbCommand''),
         (''lldb_command'', JStr ''bt'')] ''b'',
      Advance 30000,
      Message (JsonText (JObj [(''type'', JStr ''response''),
         (''command'', JStr ''executeLldbCommand''), (''success'', JBool True),
         (''result'', JStr ''frame #0''), (''id'', JStr ''b'')]))]"

section \<open>Evaluation rules\<close>

lemmas io_defs = ret_def lift_def bind_io_def try_catch_def ws_send_def await_customRequest_def

lemmas zod_defs =
  z_string_def z_number_def z_boolean_def z_literal_def z_optional_def z_array_def field_def

lemmas schema_defs =
  messageSchema_def requestSchema_def responseSchema_def eventSchema_def
  executeLldbCommandRequestSchema_def getStackTraceRequestSchema_def
  getVariablesRequestSchema_def executeLldbCommandResponseSchema_def
  getStackTraceResponseSchema_def getVariablesResponseSchema_def
  debuggerStoppedEventSchema_def debuggerContinuedEventSchema_def
  sourceSchema_def stackFrameSchema_def variableSchema_def

lemmas handler_defs =
  handleExecuteLldbCommand_def handleGetStackTrace_def handleGetVariables_def

lemmas client_eval = run_def sendRequest_def ensureConnected_def connectToExtension_def connect.simps maxRetries_def set_connection_def
      initialClient_def initialDebuggerState_def onmessage_def run_handler_def settle_def response_outcome_def advance_def fire_def
      JSON_parse_def JSON_stringify_def with_id_def schema_defs zod_defs Let_def

lemma stringify_failure_response:
  "JSON_stringify (failure_response command err rid) = JsonText (failure_response command err rid)"
  by (simp add: JSON_stringify_def failure_response_def)

section \<open>The Session State Cache\<close>

text \<open>
  C7: folding \<open>handleEvent\<close> over debuggerStopped(thread 1, "breakpoint"),
  debuggerContinued(thread 1), debuggerStopped(thread 2, "exception") from the initial state
  gives isStopped = true, currentThreadId = 2, stopReason = "exception", and so does the
  connecting role when the three events arrive as frames. In general debuggerStopped sets
  isStopped and takes over the thread id and the reason, debuggerContinued clears isStopped;
  neither touches anything else.
\<close>

theorem C7_session_state_fold:
  "foldl (\<lambda>d e. handleEvent e d) initialDebuggerState
     [DebuggerStopped ''breakpoint'' (Num 1) description1 all1,
      DebuggerContinued (Num 1) all2,
      DebuggerStopped ''exception'' (Num 2) description3 all3]
   = initialDebuggerState
       \<lparr> isStopped := True, currentThreadId := Num 2, stopReason := ''exception'' \<rparr>
   \<and> debuggerState (run
       [Message (JsonText (JObj [(''type'', JStr ''event''), (''event'', JStr ''debuggerStopped''),
          (''reason'', JStr ''breakpoint''), (''threadId'', JNum (Num 1))])),
        Message (JsonText (JObj [(''type'', JStr ''event''), (''event'', JStr ''debuggerContinued''),
          (''threadId'', JNum (Num 1))])),
        Message (JsonText (JObj [(''type'', JStr ''event''), (''event'', JStr ''debuggerStopped''),
          (''reason'', JStr ''exception''), (''threadId'', JNum (Num 2))]))]
       (initialClient p))
     = \<lparr> isStopped = True, currentThreadId = Num 2, stopReason = ''exception'',
         connectionStatus = disconnected, connectionPort = None \<rparr>
   \<and> handleEvent (DebuggerStopped reason threadId description allStopped) d
     = d\<lparr> isStopped := True, currentThreadId := threadId, stopReason := reason \<rparr>
   \<and> handleEvent (DebuggerContinued threadId allContinued) d = d\<lparr> isStopped := False \<rparr>"
  by (simp add: run_def onmessage_def JSON_parse_def schema_defs zod_defs initialClient_def
      initialDebuggerState_def)

section \<open>The Command Dispatcher\<close>

text \<open>
  C2: for every accepted request the dispatcher ends without an exception and has sent
  exactly one frame, a response with the command and the id of the request, whatever the
  debug session answers or throws; and the handler of the socket does exactly that on a
  frame the schema accepts as a request.
\<close>

theorem C2_one_response_per_request:
  "fst (handleRequest session request) = Inr ()
   \<and> (\<exists>kvs success. sends (snd (handleRequest session request)) = [JsonText (JObj kvs)]
        \<and> field kvs ''type'' = JStr ''response''
        \<and> field kvs ''command'' = JStr (request_command request)
        \<and> field kvs ''success'' = JBool success
        \<and> field kvs ''id'' = JStr (request_id request))
   \<and> (JSON_parse data = Inr message \<and> messageSchema message = Some (Request request)
        \<longrightarrow> ws_on_message format session data = handleRequest session request)"
proof (intro conjI impI)
  show ok: "fst (handleRequest session request) = Inr ()"
    by (cases request)
       (auto simp: handler_defs io_defs split: sum.splits prod.splits)
  show "\<exists>kvs success. sends (snd (handleRequest session request)) = [JsonText (JObj kvs)]
        \<and> field kvs ''type'' = JStr ''response''
        \<and> field kvs ''command'' = JStr (request_command request)
        \<and> field kvs ''success'' = JBool success
        \<and> field kvs ''id'' = JStr (request_id request)"
    by (cases request)
       (auto simp: handler_defs io_defs JSON_stringify_def field_def
             split: sum.splits prod.splits option.splits)
  assume "JSON_parse data = Inr message \<and> messageSchema message = Some (Request request)"
  with ok show "ws_on_message format session data = handleRequest session request"
    by (cases "handleRequest session request")
       (simp add: ws_on_message_def lift_def bind_io_def try_catch_def)
qed

theorem C2_one_response_per_request_witness:
  "ws_on_message (\<lambda>v. JNull)
     (Some \<lparr> sessionType = ''lldb'', customRequest = (\<lambda>command args. Inl (Error ''not stopped'')) \<rparr>)
     (JsonText (JObj [(''type'', JStr ''request''), (''command'', JStr ''getStackTrace''),
        (''threadId'', JNum (Num 1)), (''id'', JStr ''r1'')]))
   = (Inr (),
      [CustomRequest ''stackTrace''
         (JObj [(''threadId'', JNum (Num 1)), (''startFrame'', JNum (Num 0)),
                (''levels'', JNum (Num 100))]),
       WsSend (JsonText (failure_response ''getStackTrace'' ''not stopped'' ''r1''))])"
proof -
  let ?data = "JsonText (JObj [(''type'', JStr ''request''), (''command'', JStr ''getStackTrace''),
        (''threadId'', JNum (Num 1)), (''id'', JStr ''r1'')])"
  have h: "JSON_parse ?data = Inr (JObj [(''type'', JStr ''request''),
        (''command'', JStr ''getStackTrace''), (''threadId'', JNum (Num 1)), (''id'', JStr ''r1'')])
      \<and> messageSchema (JObj [(''type'', JStr ''request''),
        (''command'', JStr ''getStackTrace''), (''threadId'', JNum (Num 1)), (''id'', JStr ''r1'')])
        = Some (Request (GetStackTraceRequest (Num 1) ''r1''))"
    by (simp add: JSON_parse_def schema_defs zod_defs)
  from C2_one_response_per_request
    [of "Some \<lparr> sessionType = ''lldb'', customRequest = (\<lambda>command args. Inl (Error ''not stopped'')) \<rparr>"
        "GetStackTraceRequest (Num 1) ''r1''" ?data _ "\<lambda>v. JNull"] h
  show ?thesis
    by (simp add: handleGetStackTrace_def no_lldb_session_def io_defs JSON_stringify_def
        failure_response_def)
qed

text \<open>
  C5: with no active LLDB debug session (none at all, or one of another type) every
  command answers with the one frame \<open>success: false\<close>, error "No active LLDB debug
  session", under the command and id of the request; the session is not called and no
  exception leaves the handler.
\<close>

theorem C5_no_active_session:
  assumes "no_lldb_session session"
  shows "handleRequest session request =
           (Inr (), [WsSend (JsonText (failure_response (request_command request)
                       ''No active LLDB debug session'' (request_id request)))])
         \<and> session_calls (snd (handleRequest session request)) = []"
  using assms
  by (cases request)
     (simp_all add: handler_defs ws_send_def stringify_failure_response [unfolded failure_response_def]
        failure_response_def)

theorem C5_no_active_session_witness:
  "no_lldb_session (Some \<lparr> sessionType = ''python'', customRequest = (\<lambda>command args. Inr JNull) \<rparr>)
   \<and> handleRequest (Some \<lparr> sessionType = ''python'', customRequest = (\<lambda>command args. Inr JNull) \<rparr>)
       (ExecuteLldbCommandRequest ''bt'' ''r7'' None)
     = (Inr (), [WsSend (JsonText (JObj
          [(''type'', JStr ''response''), (''command'', JStr ''executeLldbCommand''),
           (''success'', JBool False), (''error'', JStr ''No active LLDB debug session''),
           (''id'', JStr ''r7'')]))])"
proof -
  have h: "no_lldb_session
      (Some \<lparr> sessionType = ''python'', customRequest = (\<lambda>command args. Inr JNull) \<rparr>)"
    by (simp add: no_lldb_session_def)
  from C5_no_active_session [OF h, of "ExecuteLldbCommandRequest ''bt'' ''r7'' None"] h
  show ?thesis by (simp add: failure_response_def)
qed

text \<open>
  C6, as the claim states it: every getVariables request with variablesReference 0 is
  answered with the error that asks for a reference from a stack frame. It fails when no
  LLDB session is active: the answer is then the "no active session" error.
\<close>

theorem C6_reference_zero_counterexample:
  "\<not> (\<forall>session rid. handleRequest session (GetVariablesRequest (Num 0) rid) =
        (Inr (), [WsSend (JsonText (failure_response ''getVariables''
           ''Please provide a valid variablesReference from a stack frame'' rid))]))"
proof
  assume "\<forall>session rid. handleRequest session (GetVariablesRequest (Num 0) rid) =
        (Inr (), [WsSend (JsonText (failure_response ''getVariables''
           ''Please provide a valid variablesReference from a stack frame'' rid))])"
  then have "handleRequest None (GetVariablesRequest (Num 0) ''r1'') =
        (Inr (), [WsSend (JsonText (failure_response ''getVariables''
           ''Please provide a valid variablesReference from a stack frame'' ''r1''))])"
    by blast
  then show False
    by (simp add: handleGetVariables_def no_lldb_session_def ws_send_def JSON_stringify_def
        failure_response_def)
qed

text \<open>
  C6, amended: while an LLDB debug session is active, a getVariables request with
  variablesReference 0 is answered with the one frame \<open>success: false\<close>, error "Please
  provide a valid variablesReference from a stack frame"; and with or without a session
  the answer to such a request is one failed response and the session is never called.
\<close>

theorem C6_reference_zero:
  "(\<not> no_lldb_session session \<longrightarrow>
      handleRequest session (GetVariablesRequest (Num 0) rid) =
        (Inr (), [WsSend (JsonText (failure_response ''getVariables''
           ''Please provide a valid variablesReference from a stack frame'' rid))]))
   \<and> (\<exists>err. handleRequest session (GetVariablesRequest (Num 0) rid) =
        (Inr (), [WsSend (JsonText (failure_response ''getVariables'' err rid))]))
   \<and> session_calls (snd (handleRequest session (GetVariablesRequest (Num 0) rid))) = []"
  by (simp add: handleGetVariables_def io_defs stringify_failure_response [unfolded failure_response_def]
      failure_response_def)

theorem C6_reference_zero_witness:
  "\<not> no_lldb_session (Some \<lparr> sessionType = ''lldb'', customRequest = (\<lambda>command args. Inr JNull) \<rparr>)
   \<and> handleRequest (Some \<lparr> sessionType = ''lldb'', customRequest = (\<lambda>command args. Inr JNull) \<rparr>)
       (GetVariablesRequest (Num 0) ''r2'')
     = (Inr (), [WsSend (JsonText (JObj
          [(''type'', JStr ''response''), (''command'', JStr ''getVariables''),
           (''success'', JBool False),
           (''error'', JStr ''Please provide a valid variablesReference from a stack frame''),
           (''id'', JStr ''r2'')]))])"
proof -
  have h: "\<not> no_lldb_session
      (Some \<lparr> sessionType = ''lldb'', customRequest = (\<lambda>command args. Inr JNull) \<rparr>)"
    by (simp add: no_lldb_session_def)
  from C6_reference_zero
    [of "Some \<lparr> sessionType = ''lldb'', customRequest = (\<lambda>command args. Inr JNull) \<rparr>" "''r2''"] h
  show ?thesis by (simp add: failure_response_def)
qed

text \<open>
  C10: in the getVariables handler the session check comes first: with no active LLDB
  session a request with variablesReference 0 gets the "no active session" error, which is
  not the invalid-reference error; and with or without a session the debug session is not
  called for such a request.
\<close>

theorem C10_session_check_first:
  "(no_lldb_session session \<longrightarrow>
      handleGetVariables session (Num 0) rid =
        (Inr (), [WsSend (JsonText (failure_response ''getVariables''
           ''No active LLDB debug session'' rid))])
      \<and> handleGetVariables session (Num 0) rid \<noteq>
        (Inr (), [WsSend (JsonText (failure_response ''getVariables''
           ''Please provide a valid variablesReference from a stack frame'' rid))]))
   \<and> session_calls (snd (handleGetVariables session (Num 0) rid)) = []"
  by (simp add: handleGetVariables_def io_defs stringify_failure_response [unfolded failure_response_def]
      failure_response_def)

theorem C10_session_check_first_witness:
  "no_lldb_session None
   \<and> handleGetVariables None (Num 0) ''r3''
     = (Inr (), [WsSend (JsonText (JObj
          [(''type'', JStr ''response''), (''command'', JStr ''getVariables''),
           (''success'', JBool False), (''error'', JStr ''No active LLDB debug session''),
           (''id'', JStr ''r3'')]))])"
proof -
  have h: "no_lldb_session None"
    by (simp add: no_lldb_session_def)
  from C10_session_check_first [of None "''r3''"] h
  show ?thesis by (simp add: failure_response_def)
qed

section \<open>Malformed frames\<close>

lemma messageSchema_error_type:
  "messageSchema (JObj ((''type'', JStr ''error'') # kvs)) = None"
  by (simp add: schema_defs zod_defs)

lemma server_run_message:
  "server_run format session (WsMessage sock data # evs) clients =
     (fst (server_run format session evs clients),
      (sock, ws_on_message format session data) # snd (server_run format session evs clients))"
  by (simp split: prod.splits)

text \<open>
  C8: on a frame that is not JSON or that no message schema accepts, the listening role
  sends one frame back on the same socket, an object whose \<open>type\<close> is "error" ("Failed to
  process message", or "Invalid message format" with zod's details) and which is itself
  no message of the protocol, throws nothing,
  keeps its set of clients and handles the traffic that follows as if the frame had not
  come; the connecting role leaves its whole state as it was and goes on likewise.
\<close>

theorem C8_malformed_frames:
  assumes "malformed data"
  shows "(case JSON_parse data of
            Inl e \<Rightarrow> ws_on_message format session data =
              (Inr (), [WsSend (JSON_stringify (JObj
                 [(''type'', JStr ''error''), (''error'', JStr ''Failed to process message''),
                  (''details'', JStr (error_message e ''Unknown error''))]))])
          | Inr message \<Rightarrow> ws_on_message format session data =
              (Inr (), [WsSend (JSON_stringify (JObj
                 [(''type'', JStr ''error''), (''error'', JStr ''Invalid message format''),
                  (''details'', format message)]))]))
       \<and> (\<exists>kvs. ws_on_message format session data =
              (Inr (), [WsSend (JsonText (JObj ((''type'', JStr ''error'') # kvs)))])
            \<and> messageSchema (JObj ((''type'', JStr ''error'') # kvs)) = None)
       \<and> server_run format session (WsMessage sock data # evs) clients =
              (fst (server_run format session evs clients),
               (sock, ws_on_message format session data)
                 # snd (server_run format session evs clients))
       \<and> onmessage data c = c
       \<and> run (Message data # cevs) c = run cevs c"
proof (intro conjI)
  from assms show "case JSON_parse data of
            Inl e \<Rightarrow> ws_on_message format session data =
              (Inr (), [WsSend (JSON_stringify (JObj
                 [(''type'', JStr ''error''), (''error'', JStr ''Failed to process message''),
                  (''details'', JStr (error_message e ''Unknown error''))]))])
          | Inr message \<Rightarrow> ws_on_message format session data =
              (Inr (), [WsSend (JSON_stringify (JObj
                 [(''type'', JStr ''error''), (''error'', JStr ''Invalid message format''),
                  (''details'', format message)]))])"
    by (auto simp: malformed_def ws_on_message_def io_defs split: sum.splits)
  from assms show "\<exists>kvs. ws_on_message format session data =
              (Inr (), [WsSend (JsonText (JObj ((''type'', JStr ''error'') # kvs)))])
            \<and> messageSchema (JObj ((''type'', JStr ''error'') # kvs)) = None"
    by (auto simp: malformed_def ws_on_message_def io_defs JSON_stringify_def
             messageSchema_error_type split: sum.splits option.splits)
  show "server_run format session (WsMessage sock data # evs) clients =
              (fst (server_run format session evs clients),
               (sock, ws_on_message format session data)
                 # snd (server_run format session evs clients))"
    by (rule server_run_message)
  from assms show same: "onmessage data c = c"
    by (auto simp: malformed_def onmessage_def split: sum.splits)
  then show "run (Message data # cevs) c = run cevs c"
    by (simp add: run_def)
qed

theorem C8_malformed_frames_witness:
  "malformed (JsonText (JObj [(''type'', JStr ''request''), (''command'', JStr ''getStackTrace''),
      (''id'', JStr ''r1'')]))
   \<and> ws_on_message (\<lambda>v. JObj [(''_errors'', JArr [])]) None
       (JsonText (JObj [(''type'', JStr ''request''), (''command'', JStr ''getStackTrace''),
          (''id'', JStr ''r1'')]))
     = (Inr (), [WsSend (JsonText (JObj
          [(''type'', JStr ''error''), (''error'', JStr ''Invalid message format''),
           (''details'', JObj [(''_errors'', JArr [])])]))])
   \<and> onmessage (JsonText (JObj [(''type'', JStr ''request''), (''command'', JStr ''getStackTrace''),
        (''id'', JStr ''r1'')])) (initialClient (Num 8080)) = initialClient (Num 8080)"
proof -
  let ?data = "JsonText (JObj [(''type'', JStr ''request''), (''command'', JStr ''getStackTrace''),
      (''id'', JStr ''r1'')])"
  have h: "malformed ?data"
    by (simp add: malformed_def JSON_parse_def schema_defs zod_defs)
  from C8_malformed_frames
    [OF h, of "\<lambda>v. JObj [(''_errors'', JArr [])]" None _ _ _ "initialClient (Num 8080)"] h
  show ?thesis
    by (simp add: JSON_parse_def JSON_stringify_def)
qed

section \<open>Connecting and retrying\<close>

text \<open>
  What \<open>connectToExtension\<close> retries is a throwing constructor: up to five attempts, two
  seconds apart.
\<close>

lemma connect_constructor_throws:
  "connectToExtension (\<lambda>n. ConstructorThrows m) p (initialClient p) =
     (Inl (Error m), 5,
      (initialClient p)
        \<lparr> debuggerState := initialDebuggerState
             \<lparr> connectionStatus := connecting, connectionPort := Some p \<rparr>,
          connLog := [NewWebSocket p, RetryDelay 2000, NewWebSocket p, RetryDelay 2000,
                      NewWebSocket p, RetryDelay 2000, NewWebSocket p, RetryDelay 2000,
                      NewWebSocket p] \<rparr>)"
  by (simp add: connectToExtension_def connect.simps maxRetries_def set_connection_def
      initialClient_def initialDebuggerState_def)

text \<open>
  C4: a connection attempt that fails, by an error event or by the 5000 ms timeout, is to
  be retried, up to five attempts two seconds apart. The code does not: with a peer that
  would accept the third attempt, \<open>connectToExtension\<close> is rejected after the first one,
  with one socket made and no delay.
\<close>

theorem C4_failed_attempt_not_retried:
  "connectToExtension (\<lambda>n. if n < 2 then TimesOut else Opens) (Num 8080)
       (initialClient (Num 8080))
     = (Inl (Error ''Connection timeout''), 0,
        (initialClient (Num 8080))
          \<lparr> connLog := [NewWebSocket (Num 8080), ConnectionTimeout 5000],
            ws := Some CLOSING \<rparr>)
   \<and> connectToExtension (\<lambda>n. if n < 2 then ErrorEvent ev else Opens) (Num 8080)
       (initialClient (Num 8080))
     = (Inl (NonError ev), 0,
        (initialClient (Num 8080)) \<lparr> connLog := [NewWebSocket (Num 8080)] \<rparr>)"
  by (simp add: connectToExtension_def connect.simps maxRetries_def set_connection_def
      initialClient_def initialDebuggerState_def)

section \<open>Serializing and parsing messages\<close>

lemma keep_simps [simp]: "keep P None = None" "keep P (Some a) = (if P a then Some a else None)"
  by (simp_all add: keep_def)

lemma json_value_None_iff: "json_value v = None \<longleftrightarrow> v = JUndefined"
  by (cases v) auto

lemma json_value_not_undefined: "json_value v \<noteq> Some JUndefined"
  by (cases v) (auto split: jsnum.splits)

lemma js_norm_simps [simp]:
  "js_norm JUndefined = JUndefined" "js_norm JNull = JNull" "js_norm (JBool b) = JBool b"
  "js_norm (JStr s) = JStr s" "js_norm (JArr xs) = JArr (json_elems xs)"
  "js_norm (JObj kvs) = JObj (json_props kvs)"
  "js_norm (JNum n) = (case n of Num q \<Rightarrow> JNum (Num q) | _ \<Rightarrow> JNull)"
  by (simp_all add: js_norm_def)

lemma js_norm_undefined_iff [simp]: "js_norm v = JUndefined \<longleftrightarrow> v = JUndefined"
  by (cases v) (auto split: jsnum.splits)

lemma map_of_json_props:
  "distinct (map fst kvs) \<Longrightarrow>
   map_of (json_props kvs) k = (case map_of kvs k of None \<Rightarrow> None | Some v \<Rightarrow> json_value v)"
proof (induction kvs)
  case Nil
  then show ?case by simp
next
  case (Cons kv kvs)
  obtain k' v where kv: "kv = (k', v)" by (cases kv)
  from Cons.prems kv have fresh: "map_of kvs k' = None"
    by (simp add: map_of_eq_None_iff)
  from Cons kv fresh show ?case
    by (cases "json_value v") auto
qed

lemma field_json_props:
  "distinct (map fst kvs) \<Longrightarrow> field (json_props kvs) k = js_norm (field kvs k)"
  by (simp add: field_def map_of_json_props js_norm_def split: option.splits)

lemma wf_props_map_of: "wf_props kvs \<Longrightarrow> map_of kvs k = Some v \<Longrightarrow> wf_jsval v"
  by (induction kvs) (auto split: if_splits)

lemma wf_field: "wf_props kvs \<Longrightarrow> wf_jsval (field kvs k)"
  by (auto simp: field_def dest: wf_props_map_of split: option.splits)

lemma wf_elems_set: "wf_elems xs \<Longrightarrow> x \<in> set xs \<Longrightarrow> wf_jsval x"
  by (induction xs) auto

lemma z_string_norm [simp]: "z_string (js_norm v) = z_string v"
  by (cases v) (auto simp: z_string_def split: jsnum.splits)

lemma z_boolean_norm [simp]: "z_boolean (js_norm v) = z_boolean v"
  by (cases v) (auto simp: z_boolean_def split: jsnum.splits)

lemma z_literal_norm [simp]: "z_literal s (js_norm v) = z_literal s v"
  by (cases v) (auto simp: z_literal_def split: jsnum.splits)

lemma z_number_norm [simp]: "z_number (js_norm v) = keep finite_num (z_number v)"
  by (cases v) (auto simp: z_number_def split: jsnum.splits)

lemma z_optional_norm:
  "z_optional p (js_norm v) = (if v = JUndefined then Some None else map_option Some (p (js_norm v)))"
  by (cases "js_norm v") (auto simp: z_optional_def)

lemma z_optional_undefined[simp]: "z_optional p JUndefined = Some None"
  by (simp add: z_optional_def)

lemma z_optional_eq: "v \<noteq> JUndefined \<Longrightarrow> z_optional p v = map_option Some (p v)"
  by (cases v) (auto simp: z_optional_def)

lemma z_all_json_elems:
  assumes "\<And>x. x \<in> set xs \<Longrightarrow> p (js_norm x) = keep P (p x)"
    and "p JNull = None" and "p JUndefined = None"
  shows "z_all p (json_elems xs) = keep (list_all P) (z_all p xs)"
  using assms(1)
proof (induction xs)
  case Nil
  then show ?case by simp
next
  case (Cons x xs)
  have tl: "z_all p (json_elems xs) = keep (list_all P) (z_all p xs)"
    using Cons by simp
  show ?case
  proof (cases "x = JUndefined")
    case True
    with assms(2,3) show ?thesis by simp
  next
    case False
    then obtain j where j: "json_value x = Some j"
      by (cases "json_value x") (auto simp: json_value_None_iff)
    then have "js_norm x = j" by (simp add: js_norm_def)
    with Cons.prems [of x] have "p j = keep P (p x)" by simp
    with j tl show ?thesis
      by (auto simp: keep_def split: option.splits)
  qed
qed

lemma sourceSchema_norm: "wf_jsval v \<Longrightarrow> sourceSchema (js_norm v) = sourceSchema v"
  by (cases v)
     (auto simp: sourceSchema_def field_json_props z_optional_norm z_optional_eq
           split: jsnum.splits)

lemma stackFrameSchema_norm:
  "wf_jsval v \<Longrightarrow> stackFrameSchema (js_norm v) = keep finite_stackFrame (stackFrameSchema v)"
proof (cases v)
  case (JObj kvs)
  assume "wf_jsval v"
  with JObj have d: "distinct (map fst kvs)" and w: "wf_jsval (field kvs ''source'')"
    by (auto intro: wf_field)
  show ?thesis
    by (auto simp: JObj stackFrameSchema_def field_json_props [OF d] z_optional_norm
        z_optional_eq sourceSchema_norm [OF w] keep_def split: option.splits Option.bind_splits)
qed (auto simp: stackFrameSchema_def split: jsnum.splits)

lemma variableSchema_norm:
  "wf_jsval v \<Longrightarrow> variableSchema (js_norm v) = keep finite_variable (variableSchema v)"
proof (cases v)
  case (JObj kvs)
  assume "wf_jsval v"
  with JObj have d: "distinct (map fst kvs)" by simp
  show ?thesis
    by (auto simp: JObj variableSchema_def field_json_props [OF d] z_optional_norm
        z_optional_eq keep_def split: option.splits Option.bind_splits)
qed (auto simp: variableSchema_def split: jsnum.splits)

lemma z_array_norm:
  assumes "wf_jsval v" and "\<And>x. wf_jsval x \<Longrightarrow> p (js_norm x) = keep P (p x)"
    and "p JNull = None" and "p JUndefined = None"
  shows "z_array p (js_norm v) = keep (list_all P) (z_array p v)"
proof (cases v)
  case (JArr xs)
  with assms(1) have "\<And>x. x \<in> set xs \<Longrightarrow> wf_jsval x"
    by (auto dest: wf_elems_set)
  then have "z_all p (json_elems xs) = keep (list_all P) (z_all p xs)"
    using assms(2-4) by (intro z_all_json_elems) auto
  with JArr show ?thesis by (simp add: z_array_def)
qed (auto simp: z_array_def split: jsnum.splits)

lemma stackFrames_norm:
  "wf_jsval v \<Longrightarrow> z_array stackFrameSchema (js_norm v)
     = keep (list_all finite_stackFrame) (z_array stackFrameSchema v)"
  by (rule z_array_norm [where p = stackFrameSchema and P = finite_stackFrame])
     (simp_all add: stackFrameSchema_norm, simp_all add: stackFrameSchema_def)

lemma variables_norm:
  "wf_jsval v \<Longrightarrow> z_array variableSchema (js_norm v)
     = keep (list_all finite_variable) (z_array variableSchema v)"
  by (rule z_array_norm [where p = variableSchema and P = finite_variable])
     (simp_all add: variableSchema_norm, simp_all add: variableSchema_def)

lemma stable_keep: "(\<And>v. wf_jsval v \<Longrightarrow> p (js_norm v) = keep P (p v)) \<Longrightarrow> stable P p"
  by (simp add: stable_def)

lemma stable_union: "(\<And>p. p \<in> set ps \<Longrightarrow> stable P p) \<Longrightarrow> stable P (z_union ps)"
proof (induction ps)
  case Nil
  then show ?case by (simp add: stable_def)
next
  case (Cons p ps)
  then have p: "stable P p" and ps: "stable P (z_union ps)" by simp_all
  show ?case
    unfolding stable_def
  proof (intro allI impI conjI)
    fix v m assume "wf_jsval v" "z_union (p # ps) v = Some m" "P m"
    with p ps show "z_union (p # ps) (js_norm v) = Some m"
      by (cases "p v") (auto simp: stable_def)
  next
    fix v assume "wf_jsval v" "z_union (p # ps) v = None"
    with p ps show "z_union (p # ps) (js_norm v) = None"
      by (cases "p v") (auto simp: stable_def)
  qed
qed

lemma stable_map: "stable (\<lambda>a. P (C a)) p \<Longrightarrow> stable P (\<lambda>v. map_option C (p v))"
  by (auto simp: stable_def)

lemma executeLldbCommandRequestSchema_norm:
  "wf_jsval v \<Longrightarrow> executeLldbCommandRequestSchema (js_norm v) = keep finite_request (executeLldbCommandRequestSchema v)"
proof (cases v)
  case (JObj kvs)
  assume "wf_jsval v"
  with JObj have d: "distinct (map fst kvs)"
    by (auto intro: wf_field)
  show ?thesis
    by (auto simp: JObj executeLldbCommandRequestSchema_def field_json_props [OF d] z_optional_norm
        z_optional_eq keep_def split: option.splits Option.bind_splits)
qed (auto simp: executeLldbCommandRequestSchema_def split: jsnum.splits)

lemma getStackTraceRequestSchema_norm:
  "wf_jsval v \<Longrightarrow> getStackTraceRequestSchema (js_norm v) = keep finite_request (getStackTraceRequestSchema v)"
proof (cases v)
  case (JObj kvs)
  assume "wf_jsval v"
  with JObj have d: "distinct (map fst kvs)"
    by (auto intro: wf_field)
  show ?thesis
    by (auto simp: JObj getStackTraceRequestSchema_def field_json_props [OF d] z_optional_norm
        z_optional_eq keep_def split: option.splits Option.bind_splits)
qed (auto simp: getStackTraceRequestSchema_def split: jsnum.splits)

lemma getVariablesRequestSchema_norm:
  "wf_jsval v \<Longrightarrow> getVariablesRequestSchema (js_norm v) = keep finite_request (getVariablesRequestSchema v)"
proof (cases v)
  case (JObj kvs)
  assume "wf_jsval v"
  with JObj have d: "distinct (map fst kvs)"
    by (auto intro: wf_field)
  show ?thesis
    by (auto simp: JObj getVariablesRequestSchema_def field_json_props [OF d] z_optional_norm
        z_optional_eq keep_def split: option.splits Option.bind_splits)
qed (auto simp: getVariablesRequestSchema_def split: jsnum.splits)

lemma executeLldbCommandResponseSchema_norm:
  "wf_jsval v \<Longrightarrow> executeLldbCommandResponseSchema (js_norm v) = keep finite_response (executeLldbCommandResponseSchema v)"
proof (cases v)
  case (JObj kvs)
  assume "wf_jsval v"
  with JObj have d: "distinct (map fst kvs)"
    by (auto intro: wf_field)
  show ?thesis
    by (auto simp: JObj executeLldbCommandResponseSchema_def field_json_props [OF d] z_optional_norm
        z_optional_eq keep_def split: option.splits Option.bind_splits)
qed (auto simp: executeLldbCommandResponseSchema_def split: jsnum.splits)

lemma getStackTraceResponseSchema_norm:
  "wf_jsval v \<Longrightarrow> getStackTraceResponseSchema (js_norm v) = keep finite_response (getStackTraceResponseSchema v)"
proof (cases v)
  case (JObj kvs)
  assume "wf_jsval v"
  with JObj have d: "distinct (map fst kvs)" and w: "wf_jsval (field kvs ''stackFrames'')"
    by (auto intro: wf_field)
  show ?thesis
    by (auto simp: JObj getStackTraceResponseSchema_def field_json_props [OF d] z_optional_norm
        z_optional_eq stackFrames_norm [OF w] keep_def split: option.splits Option.bind_splits)
qed (auto simp: getStackTraceResponseSchema_def split: jsnum.splits)

lemma getVariablesResponseSchema_norm:
  "wf_jsval v \<Longrightarrow> getVariablesResponseSchema (js_norm v) = keep finite_response (getVariablesResponseSchema v)"
proof (cases v)
  case (JObj kvs)
  assume "wf_jsval v"
  with JObj have d: "distinct (map fst kvs)" and w: "wf_jsval (field kvs ''variables'')"
    by (auto intro: wf_field)
  show ?thesis
    by (auto simp: JObj getVariablesResponseSchema_def field_json_props [OF d] z_optional_norm
        z_optional_eq variables_norm [OF w] keep_def split: option.splits Option.bind_splits)
qed (auto simp: getVariablesResponseSchema_def split: jsnum.splits)

lemma debuggerStoppedEventSchema_norm:
  "wf_jsval v \<Longrightarrow> debuggerStoppedEventSchema (js_norm v) = keep finite_event (debuggerStoppedEventSchema v)"
proof (cases v)
  case (JObj kvs)
  assume "wf_jsval v"
  with JObj have d: "distinct (map fst kvs)"
    by (auto intro: wf_field)
  show ?thesis
    by (auto simp: JObj debuggerStoppedEventSchema_def field_json_props [OF d] z_optional_norm
        z_optional_eq keep_def split: option.splits Option.bind_splits)
qed (auto simp: debuggerStoppedEventSchema_def split: jsnum.splits)

lemma debuggerContinuedEventSchema_norm:
  "wf_jsval v \<Longrightarrow> debuggerContinuedEventSchema (js_norm v) = keep finite_event (debuggerContinuedEventSchema v)"
proof (cases v)
  case (JObj kvs)
  assume "wf_jsval v"
  with JObj have d: "distinct (map fst kvs)"
    by (auto intro: wf_field)
  show ?thesis
    by (auto simp: JObj debuggerContinuedEventSchema_def field_json_props [OF d] z_optional_norm
        z_optional_eq keep_def split: option.splits Option.bind_splits)
qed (auto simp: debuggerContinuedEventSchema_def split: jsnum.splits)

lemma stable_messageSchema: "stable finite_message messageSchema"
proof -
  have req: "stable (\<lambda>a. finite_message (Request a)) requestSchema"
    unfolding requestSchema_def
    by (rule stable_union)
       (auto intro!: stable_keep simp: executeLldbCommandRequestSchema_norm
          getStackTraceRequestSchema_norm getVariablesRequestSchema_norm)
  have resp: "stable (\<lambda>a. finite_message (Response a)) responseSchema"
    unfolding responseSchema_def
    by (rule stable_union)
       (auto intro!: stable_keep simp: executeLldbCommandResponseSchema_norm
          getStackTraceResponseSchema_norm getVariablesResponseSchema_norm)
  have ev: "stable (\<lambda>a. finite_message (Event a)) eventSchema"
    unfolding eventSchema_def
    by (rule stable_union)
       (auto intro!: stable_keep simp: debuggerStoppedEventSchema_norm
          debuggerContinuedEventSchema_norm)
  show ?thesis
    unfolding messageSchema_def
    by (rule stable_union) (auto intro!: stable_map req resp ev)
qed

lemma messageSchema_undefined: "messageSchema JUndefined = None"
  by (simp add: schema_defs)

text \<open>
  C9, as the claim states it: every value a message schema accepts is accepted again, with
  the same reading, after \<open>JSON.stringify\<close> and \<open>JSON.parse\<close>. It fails for a number
  that is not finite: \<open>z.number()\<close> accepts \<open>Infinity\<close> as a thread id, the JSON text holds
  \<open>null\<close> in its place, and no schema accepts that.
\<close>

theorem C9_roundtrip_counterexample:
  "\<not> (\<forall>v m. wf_jsval v \<longrightarrow> messageSchema v = Some m \<longrightarrow>
        (case JSON_parse (JSON_stringify v) of
           Inl e \<Rightarrow> False
         | Inr j \<Rightarrow> messageSchema j = Some m))"
proof
  assume a: "\<forall>v m. wf_jsval v \<longrightarrow> messageSchema v = Some m \<longrightarrow>
    (case JSON_parse (JSON_stringify v) of Inl e \<Rightarrow> False | Inr j \<Rightarrow> messageSchema j = Some m)"
  let ?v = "JObj [(''type'', JStr ''event''), (''event'', JStr ''debuggerContinued''),
     (''threadId'', JNum PosInfinity)]"
  have "wf_jsval ?v" by simp
  moreover have "messageSchema ?v = Some (Event (DebuggerContinued PosInfinity None))"
    by (simp add: schema_defs zod_defs)
  ultimately have "case JSON_parse (JSON_stringify ?v) of Inl e \<Rightarrow> False
     | Inr j \<Rightarrow> messageSchema j = Some (Event (DebuggerContinued PosInfinity None))"
    using a by blast
  then show False
    by (simp add: JSON_stringify_def JSON_parse_def schema_defs zod_defs)
qed

text \<open>
  C9, amended: for every value that one of the message schemas accepts and whose numbers,
  as the schema reads them, are all finite, serializing it to JSON text and parsing the
  text back through the message schema succeeds and gives the same message: the same
  kind, every field with its value and type, an absent optional field absent.
\<close>

theorem C9_roundtrip_finite:
  assumes "wf_jsval v" and "messageSchema v = Some m" and "finite_message m"
  shows "case JSON_parse (JSON_stringify v) of
           Inl e \<Rightarrow> False
         | Inr j \<Rightarrow> messageSchema j = Some m"
proof -
  from assms(2) have "v \<noteq> JUndefined"
    by (auto simp: messageSchema_undefined)
  then obtain j where j: "json_value v = Some j"
    by (cases "json_value v") (auto simp: json_value_None_iff)
  then have "js_norm v = j" by (simp add: js_norm_def)
  with assms stable_messageSchema have "messageSchema j = Some m"
    by (auto simp: stable_def)
  with j show ?thesis
    by (simp add: JSON_stringify_def JSON_parse_def)
qed

theorem C9_roundtrip_finite_witness:
  "messageSchema (JObj [(''type'', JStr ''response''), (''command'', JStr ''getStackTrace''),
      (''success'', JBool True),
      (''stackFrames'', JArr [JObj [(''id'', JNum (Num 0)), (''name'', JStr ''main''),
         (''source'', JObj [(''path'', JStr ''/src/main.cpp'')]),
         (''line'', JNum (Num 42)), (''column'', JNum (Num 5))]]),
      (''error'', JUndefined), (''id'', JStr ''r1'')])
     = Some (Response (GetStackTraceResponse True
         (Some [StackFrame (Num 0) ''main'' (Some (SourceRef None (Some ''/src/main.cpp'')))
            (Num 42) (Num 5)]) None ''r1''))
   \<and> (case JSON_parse (JSON_stringify
      (JObj [(''type'', JStr ''response''), (''command'', JStr ''getStackTrace''),
      (''success'', JBool True),
      (''stackFrames'', JArr [JObj [(''id'', JNum (Num 0)), (''name'', JStr ''main''),
         (''source'', JObj [(''path'', JStr ''/src/main.cpp'')]),
         (''line'', JNum (Num 42)), (''column'', JNum (Num 5))]]),
      (''error'', JUndefined), (''id'', JStr ''r1'')])) of
        Inl e \<Rightarrow> False
      | Inr j \<Rightarrow> messageSchema j = Some (Response (GetStackTraceResponse True
         (Some [StackFrame (Num 0) ''main'' (Some (SourceRef None (Some ''/src/main.cpp'')))
            (Num 42) (Num 5)]) None ''r1'')))"
proof -
  let ?v = "JObj [(''type'', JStr ''response''), (''command'', JStr ''getStackTrace''),
      (''success'', JBool True),
      (''stackFrames'', JArr [JObj [(''id'', JNum (Num 0)), (''name'', JStr ''main''),
         (''source'', JObj [(''path'', JStr ''/src/main.cpp'')]),
         (''line'', JNum (Num 42)), (''column'', JNum (Num 5))]]),
      (''error'', JUndefined), (''id'', JStr ''r1'')]"
  let ?m = "Response (GetStackTraceResponse True
         (Some [StackFrame (Num 0) ''main'' (Some (SourceRef None (Some ''/src/main.cpp'')))
            (Num 42) (Num 5)]) None ''r1'')"
  have h1: "wf_jsval ?v" by simp
  have h2: "messageSchema ?v = Some ?m"
    by (simp add: schema_defs zod_defs)
  have h3: "finite_message ?m" by simp
  from C9_roundtrip_finite [OF h1 h2 h3] h2 show ?thesis by simp
qed

section \<open>The Request Correlator\<close>

subsection \<open>What each operation changes\<close>

lemma connect_frame:
  "timers (snd (snd (connect env p rc c))) = timers c
   \<and> settled (snd (snd (connect env p rc c))) = settled c
   \<and> responseHandlers (snd (snd (connect env p rc c))) = responseHandlers c
   \<and> clock (snd (snd (connect env p rc c))) = clock c
   \<and> nextToken (snd (snd (connect env p rc c))) = nextToken c
   \<and> sent (snd (snd (connect env p rc c))) = sent c"
proof (induction env p rc c rule: connect.induct)
  case (1 env p retryCount c)
  show ?case
    by (subst (1 2 3 4 5 6) connect.simps)
       (use 1 in \<open>auto simp: Let_def set_connection_def split: attempt.splits\<close>)
qed

lemma ensureConnected_frame:
  "timers (snd (ensureConnected env c)) = timers c
   \<and> settled (snd (ensureConnected env c)) = settled c
   \<and> responseHandlers (snd (ensureConnected env c)) = responseHandlers c
   \<and> clock (snd (ensureConnected env c)) = clock c
   \<and> nextToken (snd (ensureConnected env c)) = nextToken c
   \<and> sent (snd (ensureConnected env c)) = sent c"
  using connect_frame [of env "port c" 0 "set_connection connecting (Some (port c)) c"]
  by (auto simp: ensureConnected_def connectToExtension_def set_connection_def
           split: prod.splits sum.splits)

lemma answers_incoming:
  "answers rid (Message data) \<longleftrightarrow> (\<exists>r. incoming_response data = Some r \<and> response_id r = rid)"
  by (auto simp: incoming_response_def split: sum.splits option.splits message.splits)

lemma sendRequest_fields:
  "nextToken (sendRequest env request rid c) = nextToken c + 1"
  "clock (sendRequest env request rid c) = clock c"
  using ensureConnected_frame [of env c]
  by (auto simp: sendRequest_def settle_def Let_def split: prod.splits sum.splits)

lemma sendRequest_registered:
  assumes "fst (ensureConnected env c) = Inr ()"
  shows "timers (sendRequest env request rid c) = timers c @ [(nextToken c, clock c + 30000, rid)]"
    and "settled (sendRequest env request rid c) = settled c"
    and "responseHandlers (sendRequest env request rid c) = (responseHandlers c)(rid \<mapsto> nextToken c)"
  using ensureConnected_frame [of env c] assms
  by (auto simp: sendRequest_def settle_def Let_def split: prod.splits sum.splits)

lemma sendRequest_rejected:
  assumes "fst (ensureConnected env c) = Inl m"
  shows "timers (sendRequest env request rid c) = timers c"
    and "settled (sendRequest env request rid c) = settled c @ [(nextToken c, clock c, Rejected m)]"
    and "responseHandlers (sendRequest env request rid c) = responseHandlers c"
  using ensureConnected_frame [of env c] assms
  by (auto simp: sendRequest_def settle_def Let_def split: prod.splits sum.splits)

lemma onmessage_fields:
  "nextToken (onmessage data c) = nextToken c"
  "clock (onmessage data c) = clock c"
  by (auto simp: onmessage_def run_handler_def settle_def Let_def
           split: sum.splits option.splits message.splits)

lemma onmessage_handled:
  assumes "incoming_response data = Some r" and "responseHandlers c (response_id r) = Some tok"
  shows "timers (onmessage data c) = filter (\<lambda>(t, deadline, rid). t \<noteq> tok) (timers c)"
    and "settled (onmessage data c) = settled c @ [(tok, clock c, response_outcome r)]"
    and "responseHandlers (onmessage data c) = (responseHandlers c)(response_id r := None)"
  using assms
  by (auto simp: incoming_response_def onmessage_def run_handler_def settle_def Let_def
           split: sum.splits option.splits message.splits)

lemma onmessage_discarded:
  assumes "incoming_response data = Some r" and "responseHandlers c (response_id r) = None"
  shows "onmessage data c = c"
  using assms
  by (auto simp: incoming_response_def onmessage_def split: sum.splits option.splits message.splits)

lemma onmessage_other:
  assumes "incoming_response data = None"
  shows "timers (onmessage data c) = timers c"
    and "settled (onmessage data c) = settled c"
    and "responseHandlers (onmessage data c) = responseHandlers c"
  using assms
  by (auto simp: incoming_response_def onmessage_def split: sum.splits option.splits message.splits)

lemma onclose_fields:
  "timers (onclose c) = timers c" "settled (onclose c) = settled c"
  "responseHandlers (onclose c) = responseHandlers c"
  "clock (onclose c) = clock c" "nextToken (onclose c) = nextToken c"
  by (simp_all add: onclose_def set_connection_def)

lemma fire_fields:
  "settled (fire (tok, deadline, rid) c) = settled c @ [(tok, deadline, Rejected ''Request timeout'')]"
  "responseHandlers (fire (tok, deadline, rid) c) = (responseHandlers c)(rid := None)"
  "timers (fire t c) = timers c" "clock (fire t c) = clock c" "nextToken (fire t c) = nextToken c"
  by (simp_all add: fire_def split: prod.splits)

lemma foldl_fire:
  "settled (foldl (\<lambda>c t. fire t c) c ts)
     = settled c @ map (\<lambda>(tok, deadline, rid). (tok, deadline, Rejected ''Request timeout'')) ts
   \<and> responseHandlers (foldl (\<lambda>c t. fire t c) c ts)
     = (\<lambda>rid. if rid \<in> (\<lambda>(tok, deadline, rid). rid) ` set ts then None else responseHandlers c rid)
   \<and> timers (foldl (\<lambda>c t. fire t c) c ts) = timers c
   \<and> clock (foldl (\<lambda>c t. fire t c) c ts) = clock c
   \<and> nextToken (foldl (\<lambda>c t. fire t c) c ts) = nextToken c"
proof (induction ts arbitrary: c)
  case Nil
  then show ?case by simp
next
  case (Cons t ts)
  obtain tok deadline rid where t: "t = (tok, deadline, rid)" by (cases t)
  show ?case
    by (simp add: Cons.IH t fire_fields fun_eq_iff)
qed

lemma advance_fields:
  "timers (advance d c) = filter (\<lambda>(tok, deadline, rid). \<not> deadline \<le> clock c + d) (timers c)"
  "settled (advance d c) = settled c
     @ map (\<lambda>(tok, deadline, rid). (tok, deadline, Rejected ''Request timeout''))
         (filter (\<lambda>(tok, deadline, rid). deadline \<le> clock c + d) (timers c))"
  "clock (advance d c) = clock c + d"
  "nextToken (advance d c) = nextToken c"
  by (simp_all add: advance_def Let_def foldl_fire)

lemma advance_handlers:
  "responseHandlers (advance d c) rid =
     (if \<exists>tok deadline. (tok, deadline, rid) \<in> set (timers c) \<and> deadline \<le> clock c + d
      then None else responseHandlers c rid)"
proof -
  have "rid \<in> (\<lambda>(tok, deadline, rid). rid) `
          set (filter (\<lambda>(tok, deadline, rid). deadline \<le> clock c + d) (timers c))
        \<longleftrightarrow> (\<exists>tok deadline. (tok, deadline, rid) \<in> set (timers c) \<and> deadline \<le> clock c + d)"
    by force
  then show ?thesis
    by (simp add: advance_def Let_def foldl_fire)
qed

lemma settlements_append:
  "settled c' = settled c @ ys \<Longrightarrow>
   settlements tok c' = settlements tok c @ map snd (filter (\<lambda>(t, time, outcome). t = tok) ys)"
  by (simp add: settlements_def)

lemma settlements_same: "settled c' = settled c \<Longrightarrow> settlements tok c' = settlements tok c"
  by (simp add: settlements_def)

lemma filter_token_absent:
  "tok \<notin> fst ` set xs \<Longrightarrow> filter (\<lambda>x. fst x = tok) xs = []"
  by (auto simp: filter_empty_conv image_iff)

lemma filter_token_distinct:
  "distinct (map fst xs) \<Longrightarrow> x \<in> set xs \<Longrightarrow> filter (\<lambda>y. fst y = fst x) xs = [x]"
proof (induction xs)
  case Nil
  then show ?case by simp
next
  case (Cons y ys)
  show ?case
  proof (cases "y = x")
    case True
    with Cons.prems have "fst x \<notin> fst ` set ys" by simp
    with True show ?thesis by (simp add: filter_token_absent)
  next
    case False
    with Cons.prems have mem: "x \<in> set ys" and d: "distinct (map fst ys)"
      and "fst y \<notin> fst ` set ys"
      by auto
    then have "fst y \<noteq> fst x" by force
    with Cons.IH [OF d mem] show ?thesis by simp
  qed
qed

lemma distinct_fst_unique:
  "distinct (map fst xs) \<Longrightarrow> (a, b) \<in> set xs \<Longrightarrow> (a, b') \<in> set xs \<Longrightarrow> b = b'"
  by (metis eq_key_imp_eq_value)

lemma settlements_snoc:
  "settled c' = settled c @ [(t, time, outcome)] \<Longrightarrow>
   settlements tok c' = (if t = tok then settlements tok c @ [(time, outcome)] else settlements tok c)"
  by (simp add: settlements_def)

lemma advance_settlements:
  "settlements tok (advance d c) = settlements tok c
     @ map (\<lambda>x. (fst (snd x), Rejected ''Request timeout''))
         (filter (\<lambda>x. fst x = tok) (filter (\<lambda>x. fst (snd x) \<le> clock c + d) (timers c)))"
  by (simp add: settlements_def advance_fields filter_map o_def case_prod_beta)

lemma advance_settlements_absent:
  "tok \<notin> pending c \<Longrightarrow> settlements tok (advance d c) = settlements tok c"
  unfolding advance_settlements pending_def
  by (subst filter_token_absent) auto

lemma advance_settlements_due:
  assumes "distinct (map fst (timers c))" and "(tok, deadline, rid) \<in> set (timers c)"
    and "deadline \<le> clock c + d"
  shows "settlements tok (advance d c) = settlements tok c @ [(deadline, Rejected ''Request timeout'')]"
proof -
  let ?due = "filter (\<lambda>x. fst (snd x) \<le> clock c + d) (timers c)"
  from assms have "distinct (map fst ?due)" and "(tok, deadline, rid) \<in> set ?due"
    by (simp_all add: distinct_map_filter)
  from filter_token_distinct [OF this] show ?thesis
    by (simp add: advance_settlements)
qed

lemma advance_settlements_later:
  assumes "distinct (map fst (timers c))" and "(tok, deadline, rid) \<in> set (timers c)"
    and "\<not> deadline \<le> clock c + d"
  shows "settlements tok (advance d c) = settlements tok c"
proof -
  let ?due = "filter (\<lambda>x. fst (snd x) \<le> clock c + d) (timers c)"
  have "tok \<notin> fst ` set ?due"
  proof
    assume "tok \<in> fst ` set ?due"
    then obtain deadline' rid' where "(tok, deadline', rid') \<in> set (timers c)"
      and "deadline' \<le> clock c + d"
      by auto
    with assms distinct_fst_unique [OF assms(1), of tok "(deadline, rid)" "(deadline', rid')"]
    show False by simp
  qed
  from filter_token_absent [OF this] show ?thesis
    by (simp add: advance_settlements)
qed

lemma inv_sendRequest:
  assumes "correlator_inv c"
  shows "correlator_inv (sendRequest env request rid c)"
proof (cases "fst (ensureConnected env c)")
  case (Inl m)
  note f = sendRequest_fields [of env request rid c] sendRequest_rejected [OF Inl, of request rid]
  have s: "settlements tok (sendRequest env request rid c) =
      (if nextToken c = tok then settlements tok c @ [(clock c, Rejected m)] else settlements tok c)"
    for tok
    by (rule settlements_snoc) (simp add: f)
  from assms show ?thesis
    unfolding correlator_inv_def pending_def
    by (simp add: f s) (fastforce simp: less_Suc_eq)
next
  case (Inr u)
  then have r: "fst (ensureConnected env c) = Inr ()" by simp
  note f = sendRequest_fields [of env request rid c] sendRequest_registered [OF r, of request rid]
  have s: "settlements tok (sendRequest env request rid c) = settlements tok c" for tok
    by (rule settlements_same) (simp add: f)
  from assms show ?thesis
    unfolding correlator_inv_def pending_def
    by (simp add: f s) (fastforce simp: less_Suc_eq)
qed

subsection \<open>The state kept between events\<close>

lemma inv_cong:
  assumes "timers c' = timers c" "settled c' = settled c"
    "responseHandlers c' = responseHandlers c" "clock c' = clock c" "nextToken c' = nextToken c"
  shows "correlator_inv c' = correlator_inv c"
  by (simp add: correlator_inv_def pending_def settlements_def assms)

lemma invD:
  assumes "correlator_inv c"
  shows "distinct (map fst (timers c))"
    and "\<And>t deadline rid. (t, deadline, rid) \<in> set (timers c) \<Longrightarrow> t < nextToken c"
    and "\<And>t deadline rid. (t, deadline, rid) \<in> set (timers c) \<Longrightarrow> clock c < deadline"
    and "\<And>rid t. responseHandlers c rid = Some t \<Longrightarrow> \<exists>deadline. (t, deadline, rid) \<in> set (timers c)"
    and "\<And>t. t \<in> pending c \<Longrightarrow> settlements t c = []"
    and "\<And>t. nextToken c \<le> t \<Longrightarrow> settlements t c = []"
    and "\<And>t. t \<notin> pending c \<Longrightarrow> t < nextToken c \<Longrightarrow> length (settlements t c) = 1"
  using assms unfolding correlator_inv_def by blast+

lemma invI:
  assumes "distinct (map fst (timers c))"
    and "\<And>t deadline rid. (t, deadline, rid) \<in> set (timers c) \<Longrightarrow> t < nextToken c \<and> clock c < deadline"
    and "\<And>rid t. responseHandlers c rid = Some t \<Longrightarrow> \<exists>deadline. (t, deadline, rid) \<in> set (timers c)"
    and "\<And>t. t \<in> pending c \<or> nextToken c \<le> t \<Longrightarrow> settlements t c = []"
    and "\<And>t. t \<notin> pending c \<Longrightarrow> t < nextToken c \<Longrightarrow> length (settlements t c) = 1"
  shows "correlator_inv c"
  unfolding correlator_inv_def using assms by blast

lemma inv_onmessage:
  assumes "correlator_inv c"
  shows "correlator_inv (onmessage data c)"
proof (cases "incoming_response data")
  case None
  show ?thesis
    by (rule inv_cong [THEN iffD2, OF _ _ _ _ _ assms])
       (simp_all add: onmessage_other [OF None] onmessage_fields)
next
  case (Some r)
  note r = Some
  show ?thesis
  proof (cases "responseHandlers c (response_id r)")
    case None
    with r assms show ?thesis by (simp add: onmessage_discarded)
  next
    case (Some tok)
    note f = onmessage_fields [of data c] onmessage_handled [OF r Some]
    note i = invD [OF assms]
    from i(4) [OF Some] obtain deadline where mem: "(tok, deadline, response_id r) \<in> set (timers c)"
      by blast
    have uniq: "x = (tok, deadline, response_id r)" if "x \<in> set (timers c)" "fst x = tok" for x
    proof -
      from that have "(tok, snd x) \<in> set (timers c)" by auto
      from distinct_fst_unique [OF i(1) this mem] have "snd x = (deadline, response_id r)" .
      with that(2) show ?thesis by (simp add: prod_eq_iff)
    qed
    have s: "settlements t (onmessage data c) =
        (if tok = t then settlements t c @ [(clock c, response_outcome r)] else settlements t c)"
      for t
      by (rule settlements_snoc) (simp add: f)
    have tm: "set (timers (onmessage data c)) = set (timers c) - {(tok, deadline, response_id r)}"
      using uniq by (auto simp: f)
    have p: "pending (onmessage data c) = pending c - {tok}"
      unfolding pending_def tm
    proof (intro set_eqI iffI)
      fix t assume "t \<in> fst ` (set (timers c) - {(tok, deadline, response_id r)})"
      then obtain x where x: "x \<in> set (timers c)" "x \<noteq> (tok, deadline, response_id r)"
        and t: "t = fst x"
        by auto
      with uniq [of x] have "t \<noteq> tok" by auto
      with x t show "t \<in> fst ` set (timers c) - {tok}" by auto
    next
      fix t assume "t \<in> fst ` set (timers c) - {tok}"
      then obtain x where "x \<in> set (timers c)" "t = fst x" "fst x \<noteq> tok" by auto
      then show "t \<in> fst ` (set (timers c) - {(tok, deadline, response_id r)})" by force
    qed
    from mem have tp: "tok \<in> pending c" by (force simp: pending_def)
    show ?thesis
    proof (rule invI)
      show "distinct (map fst (timers (onmessage data c)))"
        using i(1) by (simp add: f distinct_map_filter)
    next
      fix t deadline' rid assume "(t, deadline', rid) \<in> set (timers (onmessage data c))"
      then have "(t, deadline', rid) \<in> set (timers c)" by (simp add: tm)
      with i(2,3) show "t < nextToken (onmessage data c) \<and> clock (onmessage data c) < deadline'"
        by (simp add: f)
    next
      fix rid t assume h: "responseHandlers (onmessage data c) rid = Some t"
      then have ne: "rid \<noteq> response_id r" and h': "responseHandlers c rid = Some t"
        by (auto simp: f split: if_splits)
      from i(4) [OF h'] obtain deadline' where m': "(t, deadline', rid) \<in> set (timers c)"
        by blast
      with ne have "(t, deadline', rid) \<in> set (timers (onmessage data c))"
        by (simp add: tm)
      then show "\<exists>deadline. (t, deadline, rid) \<in> set (timers (onmessage data c))" ..
    next
      fix t assume "t \<in> pending (onmessage data c) \<or> nextToken (onmessage data c) \<le> t"
      moreover from i(2) [OF mem] have "tok < nextToken c" .
      ultimately have "t \<noteq> tok" and "t \<in> pending c \<or> nextToken c \<le> t"
        by (auto simp: p f)
      with i(5,6) show "settlements t (onmessage data c) = []"
        by (auto simp: s)
    next
      fix t assume a: "t \<notin> pending (onmessage data c)" "t < nextToken (onmessage data c)"
      show "length (settlements t (onmessage data c)) = 1"
      proof (cases "t = tok")
        case True
        with i(5) [OF tp] show ?thesis by (simp add: s)
      next
        case False
        with a have "t \<notin> pending c" "t < nextToken c" by (simp_all add: p f)
        with i(7) False show ?thesis by (simp add: s)
      qed
    qed
  qed
qed

lemma inv_onclose:
  assumes "correlator_inv c"
  shows "correlator_inv (onclose c)"
  by (rule inv_cong [THEN iffD2, OF _ _ _ _ _ assms]) (simp_all add: onclose_fields)

lemma pending_advance:
  "t \<in> pending (advance d c) \<longleftrightarrow>
     (\<exists>deadline rid. (t, deadline, rid) \<in> set (timers c) \<and> \<not> deadline \<le> clock c + d)"
  by (force simp: pending_def advance_fields)

lemma pending_iff: "t \<in> pending c \<longleftrightarrow> (\<exists>deadline rid. (t, deadline, rid) \<in> set (timers c))"
  by (force simp: pending_def)

lemma inv_advance:
  assumes "correlator_inv c"
  shows "correlator_inv (advance d c)"
proof (rule invI)
  note i = invD [OF assms]
  show "distinct (map fst (timers (advance d c)))"
    using i(1) by (simp add: advance_fields distinct_map_filter)
  show "t < nextToken (advance d c) \<and> clock (advance d c) < deadline"
    if "(t, deadline, rid) \<in> set (timers (advance d c))" for t deadline rid
    using that i(2) by (auto simp: advance_fields)
  show "\<exists>deadline. (t, deadline, rid) \<in> set (timers (advance d c))"
    if "responseHandlers (advance d c) rid = Some t" for rid t
  proof -
    from that have nodue: "\<not> (\<exists>tok deadline. (tok, deadline, rid) \<in> set (timers c)
        \<and> deadline \<le> clock c + d)" and h: "responseHandlers c rid = Some t"
      by (auto simp: advance_handlers split: if_splits)
    from i(4) [OF h] obtain deadline where "(t, deadline, rid) \<in> set (timers c)" by blast
    with nodue have "(t, deadline, rid) \<in> set (timers (advance d c))"
      by (auto simp: advance_fields)
    then show ?thesis ..
  qed
  show "settlements t (advance d c) = []"
    if "t \<in> pending (advance d c) \<or> nextToken (advance d c) \<le> t" for t
    using that
  proof
    assume "t \<in> pending (advance d c)"
    then obtain deadline rid where m: "(t, deadline, rid) \<in> set (timers c)"
      and l: "\<not> deadline \<le> clock c + d"
      by (auto simp: pending_advance)
    from m have "t \<in> pending c" by (auto simp: pending_iff)
    with advance_settlements_later [OF i(1) m l] i(5) show ?thesis by simp
  next
    assume n: "nextToken (advance d c) \<le> t"
    have "t \<notin> pending c"
    proof
      assume "t \<in> pending c"
      then obtain deadline rid where "(t, deadline, rid) \<in> set (timers c)"
        by (auto simp: pending_iff)
      from i(2) [OF this] n show False by (simp add: advance_fields)
    qed
    with advance_settlements_absent [of t c d] i(6) [of t] n show ?thesis
      by (simp add: advance_fields)
  qed
  show "length (settlements t (advance d c)) = 1"
    if "t \<notin> pending (advance d c)" and "t < nextToken (advance d c)" for t
  proof (cases "t \<in> pending c")
    case False
    with advance_settlements_absent [of t c d] i(7) [of t] that(2) show ?thesis
      by (simp add: advance_fields)
  next
    case True
    then obtain deadline rid where m: "(t, deadline, rid) \<in> set (timers c)"
      by (auto simp: pending_iff)
    with that(1) have due: "deadline \<le> clock c + d"
      by (auto simp: pending_advance)
    from advance_settlements_due [OF i(1) m due] i(5) [OF True] show ?thesis by simp
  qed
qed

lemma inv_initial: "correlator_inv (initialClient p)"
  by (simp add: correlator_inv_def initialClient_def pending_def settlements_def)

lemma inv_step: "correlator_inv c \<Longrightarrow> correlator_inv (client_step c ev)"
  by (cases ev) (simp_all add: inv_sendRequest inv_onmessage inv_onclose inv_advance)

lemma inv_run: "correlator_inv c \<Longrightarrow> correlator_inv (run evs c)"
  unfolding run_def by (induction evs arbitrary: c) (simp_all add: inv_step)


subsection \<open>A request that is never answered\<close>

lemma tracked_sendRequest:
  assumes "tracked tok deadline rid c"
  shows "tracked tok deadline rid (sendRequest env request rid' c)"
proof -
  from assms have inv: "correlator_inv c" and lt: "tok < nextToken c"
    by (simp_all add: tracked_def)
  note i = invD [OF inv]
  have ne: "nextToken c \<noteq> tok" using lt by simp
  have sub: "set (timers c) \<subseteq> set (timers (sendRequest env request rid' c))"
    and pend: "pending (sendRequest env request rid' c) \<subseteq> insert (nextToken c) (pending c)"
    and s: "settlements tok (sendRequest env request rid' c) = settlements tok c"
  proof (atomize (full), cases "fst (ensureConnected env c)")
    case (Inl m)
    note f = sendRequest_rejected [OF Inl, of request rid']
    from settlements_snoc [OF f(2), of tok] ne
    show "set (timers c) \<subseteq> set (timers (sendRequest env request rid' c))
      \<and> pending (sendRequest env request rid' c) \<subseteq> insert (nextToken c) (pending c)
      \<and> settlements tok (sendRequest env request rid' c) = settlements tok c"
      by (auto simp: f pending_def)
  next
    case (Inr u)
    then have r: "fst (ensureConnected env c) = Inr ()" by simp
    note f = sendRequest_registered [OF r, of request rid']
    from settlements_same [OF f(2), of tok]
    show "set (timers c) \<subseteq> set (timers (sendRequest env request rid' c))
      \<and> pending (sendRequest env request rid' c) \<subseteq> insert (nextToken c) (pending c)
      \<and> settlements tok (sendRequest env request rid' c) = settlements tok c"
      by (auto simp: f pending_def)
  qed
  from assms sub pend s ne inv_sendRequest [OF inv, of env request rid'] show ?thesis
    by (auto simp: tracked_def sendRequest_fields)
qed

lemma tracked_onmessage:
  assumes "tracked tok deadline rid c" and "\<not> answers rid (Message data)"
  shows "tracked tok deadline rid (onmessage data c)"
proof -
  from assms have inv: "correlator_inv c" and lt: "tok < nextToken c"
    by (simp_all add: tracked_def)
  note i = invD [OF inv]
  show ?thesis
  proof (cases "incoming_response data")
    case None
    note f = onmessage_other [OF None, of c] onmessage_fields [of data c]
    have "pending (onmessage data c) = pending c" "settlements tok (onmessage data c) = settlements tok c"
      by (simp_all add: pending_def settlements_def f)
    with assms(1) inv_onmessage [OF inv, of data] show ?thesis
      by (simp add: tracked_def f)
  next
    case (Some r)
    note r = Some
    with assms(2) have idne: "response_id r \<noteq> rid"
      by (auto simp add: answers_incoming simp del: answers.simps)
    show ?thesis
    proof (cases "responseHandlers c (response_id r)")
      case None
      with r assms(1) show ?thesis by (simp add: onmessage_discarded)
    next
      case (Some tok')
      note f = onmessage_fields [of data c] onmessage_handled [OF r Some]
      from i(4) [OF Some] obtain deadline' where m': "(tok', deadline', response_id r) \<in> set (timers c)"
        by blast
      then have p': "tok' \<in> pending c" by (auto simp: pending_iff)
      have s: "settlements tok (onmessage data c) =
          (if tok' = tok then settlements tok c @ [(clock c, response_outcome r)] else settlements tok c)"
        by (rule settlements_snoc) (simp add: f)
      have psub: "pending (onmessage data c) \<subseteq> pending c"
        by (auto simp: pending_def f)
      show ?thesis
      proof (cases "clock c < deadline")
        case True
        with assms(1) have m: "(tok, deadline, rid) \<in> set (timers c)"
          by (simp add: tracked_def)
        have "tok' \<noteq> tok"
        proof
          assume "tok' = tok"
          with m' have "(tok, deadline', response_id r) \<in> set (timers c)" by simp
          from distinct_fst_unique [OF i(1) this m] idne show False by simp
        qed
        with m have "(tok, deadline, rid) \<in> set (timers (onmessage data c))"
          by (simp add: f)
        with True lt inv_onmessage [OF inv, of data] show ?thesis
          by (simp add: tracked_def f)
      next
        case False
        with assms(1) have np: "tok \<notin> pending c"
          and st: "settlements tok c = [(deadline, Rejected ''Request timeout'')]"
          by (simp_all add: tracked_def)
        from np p' have "tok' \<noteq> tok" by auto
        with False lt np st psub s inv_onmessage [OF inv, of data] show ?thesis
          by (auto simp: tracked_def f)
      qed
    qed
  qed
qed

lemma tracked_onclose:
  assumes "tracked tok deadline rid c"
  shows "tracked tok deadline rid (onclose c)"
proof -
  have "pending (onclose c) = pending c" "settlements tok (onclose c) = settlements tok c"
    by (simp_all add: pending_def settlements_def onclose_fields)
  with assms inv_onclose [of c] show ?thesis
    by (simp add: tracked_def onclose_fields)
qed

lemma tracked_advance:
  assumes "tracked tok deadline rid c"
  shows "tracked tok deadline rid (advance d c)"
proof -
  from assms have inv: "correlator_inv c" and lt: "tok < nextToken c"
    by (simp_all add: tracked_def)
  note i = invD [OF inv]
  note inv' = inv_advance [OF inv, of d]
  show ?thesis
  proof (cases "clock c < deadline")
    case True
    with assms have m: "(tok, deadline, rid) \<in> set (timers c)"
      by (simp add: tracked_def)
    then have p: "tok \<in> pending c" by (auto simp: pending_iff)
    show ?thesis
    proof (cases "deadline \<le> clock c + d")
      case due: True
      have "tok \<notin> pending (advance d c)"
      proof
        assume "tok \<in> pending (advance d c)"
        then obtain deadline' rid' where m': "(tok, deadline', rid') \<in> set (timers c)"
          and l: "\<not> deadline' \<le> clock c + d"
          by (auto simp: pending_advance)
        from distinct_fst_unique [OF i(1) m' m] l due show False by simp
      qed
      with advance_settlements_due [OF i(1) m due] i(5) [OF p] due lt inv' show ?thesis
        by (simp add: tracked_def advance_fields)
    next
      case False
      with m have "(tok, deadline, rid) \<in> set (timers (advance d c))"
        by (simp add: advance_fields)
      with False lt inv' show ?thesis
        by (simp add: tracked_def advance_fields)
    qed
  next
    case False
    with assms have np: "tok \<notin> pending c"
      and st: "settlements tok c = [(deadline, Rejected ''Request timeout'')]"
      by (simp_all add: tracked_def)
    have "tok \<notin> pending (advance d c)"
    proof
      assume "tok \<in> pending (advance d c)"
      then obtain deadline' rid' where "(tok, deadline', rid') \<in> set (timers c)"
        by (auto simp: pending_advance)
      then have "tok \<in> pending c" by (auto simp: pending_iff)
      with np show False by simp
    qed
    with False lt inv' st advance_settlements_absent [OF np, of d] show ?thesis
      by (simp add: tracked_def advance_fields)
  qed
qed

lemma tracked_step:
  "tracked tok deadline rid c \<Longrightarrow> \<not> answers rid ev \<Longrightarrow> tracked tok deadline rid (client_step c ev)"
  by (cases ev) (simp_all add: tracked_sendRequest tracked_onmessage tracked_onclose tracked_advance)

lemma tracked_run:
  "tracked tok deadline rid c \<Longrightarrow> \<forall>ev \<in> set evs. \<not> answers rid ev
     \<Longrightarrow> tracked tok deadline rid (run evs c)"
  unfolding run_def by (induction evs arbitrary: c) (simp_all add: tracked_step)

lemma tracked_registered:
  assumes "correlator_inv c" and "fst (ensureConnected env c) = Inr ()"
  shows "tracked (nextToken c) (clock c + 30000) rid (sendRequest env request rid c)"
  using inv_sendRequest [OF assms(1), of env request rid]
  by (simp add: tracked_def sendRequest_fields sendRequest_registered [OF assms(2)])

text \<open>
  C1: in every state the connecting role reaches, each call of \<open>sendRequest\<close> made so
  far has been resolved or rejected exactly once, or not yet at all while its timer is
  pending with the deadline ahead. A response that finds a handler under its id settles
  that call, and no other, and removes the entry; a response that finds none changes
  nothing, so the same response a second time is discarded, and so is a response that
  comes after the timeout of a request with its id has fired.
\<close>

theorem C1_settled_exactly_once:
  assumes "c = run evs (initialClient p)"
  shows "(\<forall>tok. tok < nextToken c \<longrightarrow>
            (if tok \<in> pending c then settlements tok c = []
             else length (settlements tok c) = 1))
       \<and> (\<forall>tok deadline rid. (tok, deadline, rid) \<in> set (timers c) \<longrightarrow>
            tok < nextToken c \<and> clock c < deadline)
       \<and> (\<forall>r tok. incoming_response data = Some r
              \<and> responseHandlers c (response_id r) = Some tok \<longrightarrow>
            responseHandlers (onmessage data c) (response_id r) = None
            \<and> settlements tok c = []
            \<and> settlements tok (onmessage data c) = [(clock c, response_outcome r)]
            \<and> (\<forall>t. t \<noteq> tok \<longrightarrow> settlements t (onmessage data c) = settlements t c))
       \<and> (\<forall>r. incoming_response data = Some r
              \<and> responseHandlers c (response_id r) = None \<longrightarrow>
            onmessage data c = c)
       \<and> (\<forall>r. incoming_response data = Some r \<longrightarrow>
            onmessage data (onmessage data c) = onmessage data c)
       \<and> (\<forall>r tok deadline. incoming_response data = Some r
              \<and> (tok, deadline, response_id r) \<in> set (timers c) \<and> deadline \<le> clock c + d \<longrightarrow>
            onmessage data (advance d c) = advance d c)"
proof (intro conjI allI impI)
  from assms have inv: "correlator_inv c"
    by (simp add: inv_run inv_initial)
  note i = invD [OF inv]
  show "if tok \<in> pending c then settlements tok c = [] else length (settlements tok c) = 1"
    if "tok < nextToken c" for tok
    using that i(5,7) by simp
  show "tok < nextToken c" "clock c < deadline" if "(tok, deadline, rid) \<in> set (timers c)"
    for tok deadline rid
    using that i(2,3) by blast+
  {
    fix r tok
    assume a: "incoming_response data = Some r \<and> responseHandlers c (response_id r) = Some tok"
    then have r: "incoming_response data = Some r"
      and h: "responseHandlers c (response_id r) = Some tok"
      by simp_all
    note f = onmessage_handled [OF r h]
    show "responseHandlers (onmessage data c) (response_id r) = None"
      by (simp add: f)
    from i(4) [OF h] have p: "tok \<in> pending c"
      by (auto simp: pending_iff)
    from i(5) [OF p] show e: "settlements tok c = []" .
    from settlements_snoc [OF f(2), of tok] e
    show "settlements tok (onmessage data c) = [(clock c, response_outcome r)]"
      by simp
    show "settlements t (onmessage data c) = settlements t c" if "t \<noteq> tok" for t
      using settlements_snoc [OF f(2), of t] that by simp
  }
  show "onmessage data c = c"
    if "incoming_response data = Some r \<and> responseHandlers c (response_id r) = None" for r
    using that by (simp add: onmessage_discarded)
  show "onmessage data (onmessage data c) = onmessage data c"
    if r: "incoming_response data = Some r" for r
  proof (cases "responseHandlers c (response_id r)")
    case None
    with r show ?thesis by (simp add: onmessage_discarded)
  next
    case (Some tok)
    have "responseHandlers (onmessage data c) (response_id r) = None"
      by (simp add: onmessage_handled [OF r Some])
    with r show ?thesis by (rule onmessage_discarded)
  qed
  show "onmessage data (advance d c) = advance d c"
    if "incoming_response data = Some r
        \<and> (tok, deadline, response_id r) \<in> set (timers c) \<and> deadline \<le> clock c + d"
    for r tok deadline
  proof -
    from that have "responseHandlers (advance d c) (response_id r) = None"
      by (auto simp: advance_handlers)
    with that show ?thesis by (simp add: onmessage_discarded)
  qed
qed


theorem C1_settled_exactly_once_witness:
  "nextToken (run example_run (initialClient (Num 8080))) = 2
   \<and> pending (run example_run (initialClient (Num 8080))) = {}
   \<and> settlements 0 (run example_run (initialClient (Num 8080)))
       = [(10, Resolved (ExecuteLldbCommandResponse True (Some ''frame #0'') None ''a''))]
   \<and> settlements 1 (run example_run (initialClient (Num 8080))) = [(30010, Rejected ''Request timeout'')]"
proof -
  define c where "c = run example_run (initialClient (Num 8080))"
  have f: "nextToken c = 2 \<and> timers c = []
      \<and> settled c = [(0, 10, Resolved (ExecuteLldbCommandResponse True (Some ''frame #0'') None ''a'')),
                     (1, 30010, Rejected ''Request timeout'')]"
    unfolding c_def by (simp add: example_run_def client_eval)
  from C1_settled_exactly_once [OF c_def]
  have "\<forall>tok. tok < nextToken c \<longrightarrow>
          (if tok \<in> pending c then settlements tok c = [] else length (settlements tok c) = 1)"
    by (rule conjunct1)
  with f have "nextToken c = 2 \<and> pending c = {}
      \<and> settlements 0 c
          = [(10, Resolved (ExecuteLldbCommandResponse True (Some ''frame #0'') None ''a''))]
      \<and> settlements 1 c = [(30010, Rejected ''Request timeout'')]"
    by (simp add: pending_def settlements_def)
  then show ?thesis unfolding c_def .
qed

text \<open>
  C3: a request that was sent and whose id no response ever carries: as long as fewer
  than 30000 ms have passed since the call its promise is unsettled and its timer
  pending; from 30000 ms on it has been rejected exactly once, with "Request timeout", at
  the time of the call plus 30000 ms; and the step that reaches the deadline leaves no
  handler under the id.
\<close>

theorem C3_timeout_after_window:
  assumes "c0 = run evs0 (initialClient p)"
    and "fst (ensureConnected env c0) = Inr ()"
    and "\<forall>ev \<in> set evs. \<not> answers rid ev"
    and "c2 = run evs (sendRequest env request rid c0)"
  shows "settlements (nextToken c0) c2 =
           (if clock c2 < clock c0 + 30000 then []
            else [(clock c0 + 30000, Rejected ''Request timeout'')])
       \<and> (nextToken c0 \<in> pending c2 \<longleftrightarrow> clock c2 < clock c0 + 30000)
       \<and> (clock c2 < clock c0 + 30000 \<and> clock c0 + 30000 \<le> clock c2 + d \<longrightarrow>
            responseHandlers (advance d c2) rid = None
            \<and> settlements (nextToken c0) (advance d c2)
                = [(clock c0 + 30000, Rejected ''Request timeout'')])"
proof -
  let ?tok = "nextToken c0" and ?deadline = "clock c0 + 30000"
  from assms(1) have inv0: "correlator_inv c0"
    by (simp add: inv_run inv_initial)
  from tracked_run [OF tracked_registered [OF inv0 assms(2)] assms(3)] assms(4)
  have t: "tracked ?tok ?deadline rid c2" by simp
  then have inv: "correlator_inv c2" by (simp add: tracked_def)
  note i = invD [OF inv]
  show ?thesis
  proof (cases "clock c2 < ?deadline")
    case True
    with t have m: "(?tok, ?deadline, rid) \<in> set (timers c2)"
      by (simp add: tracked_def)
    then have p: "?tok \<in> pending c2" by (auto simp: pending_iff)
    have "responseHandlers (advance d c2) rid = None" if "?deadline \<le> clock c2 + d"
      using that m by (auto simp: advance_handlers)
    with True p i(5) [OF p] advance_settlements_due [OF i(1) m] show ?thesis
      by simp
  next
    case False
    with t show ?thesis by (simp add: tracked_def)
  qed
qed


theorem C3_timeout_after_window_witness:
  "fst (ensureConnected (\<lambda>n. Opens) (initialClient (Num 8080))) = Inr ()
   \<and> settlements 0
       (run [Advance 29999,
             Message (JsonText (JObj [(''type'', JStr ''event''), (''event'', JStr ''debuggerContinued''),
               (''threadId'', JNum (Num 1))])),
             Advance 1]
          (sendRequest (\<lambda>n. Opens)
             [(''type'', JStr ''request''), (''command'', JStr ''executeLldbCommand''),
              (''lldb_command'', JStr ''bt'')] ''a'' (initialClient (Num 8080))))
     = [(30000, Rejected ''Request timeout'')]"
proof -
  let ?evs = "[Advance 29999,
             Message (JsonText (JObj [(''type'', JStr ''event''), (''event'', JStr ''debuggerContinued''),
               (''threadId'', JNum (Num 1))])),
             Advance 1]"
  let ?c2 = "run ?evs (sendRequest (\<lambda>n. Opens)
             [(''type'', JStr ''request''), (''command'', JStr ''executeLldbCommand''),
              (''lldb_command'', JStr ''bt'')] ''a'' (initialClient (Num 8080)))"
  have h0: "initialClient (Num 8080) = run [] (initialClient (Num 8080))"
    by (simp add: run_def)
  have h1: "fst (ensureConnected (\<lambda>n. Opens) (initialClient (Num 8080))) = Inr ()"
    by (simp add: client_eval)
  have h2: "\<forall>ev \<in> set ?evs. \<not> answers ''a'' ev"
    by (simp add: JSON_parse_def schema_defs zod_defs)
  have k: "clock ?c2 = 30000"
    by (simp add: client_eval)
  have z: "nextToken (initialClient (Num 8080)) = 0" "clock (initialClient (Num 8080)) = 0"
    by (simp_all add: initialClient_def)
  from C3_timeout_after_window [OF h0 h1 h2 refl,
      where request = "[(''type'', JStr ''request''), (''command'', JStr ''executeLldbCommand''),
              (''lldb_command'', JStr ''bt'')]" and d = 0]
  have "settlements 0 ?c2 = [(30000, Rejected ''Request timeout'')]"
    unfolding k z by simp
  with h1 show ?thesis by simp
qed

end
